theory Spec2Isabelle
  imports Main "HOL-Library.Log_Nat" "HOL-Library.Sublist"
begin

section \<open>Traffic Cop: the A/B/x traffic redirector of media/js/base/mozilla-traffic-cop.js\<close>

subsection \<open>JavaScript numbers\<close>

text \<open>
  A JavaScript number is an IEEE 754 double: \<open>NaN\<close>, an infinity, or a finite value
  \<open>m * 2 ^ e\<close> with \<open>\<bar>m\<bar> < 2 ^ 53\<close> and \<open>- 1074 \<le> e \<le> 971\<close>. A finite double is
  given by its value, a rational; the two zeros are not told apart (they are equal,
  both falsy, and the program never divides by them or prints them).
\<close>

datatype jsnum = NaN | PosInfinity | NegInfinity | Fin rat

definition pow2 :: "int \<Rightarrow> rat" where
  "pow2 e = (if 0 \<le> e then 2 ^ nat e else 1 / 2 ^ nat (- e))"

text \<open>\<open>\<lfloor>log\<^sub>2 a\<rfloor>\<close> for a positive rational, from the bit lengths of its two terms.\<close>

definition floor_log2 :: "rat \<Rightarrow> int" where
  "floor_log2 a =
     (let (n, d) = quotient_of a; k = bitlen n - bitlen d
      in if pow2 k \<le> a then k else k - 1)"

text \<open>The nearest integer, a tie going to the even one.\<close>

definition round_half_even :: "rat \<Rightarrow> int" where
  "round_half_even x =
     (let f = \<lfloor>x\<rfloor>; r = x - of_int f
      in if r < 1 / 2 then f
         else if 1 / 2 < r then f + 1
         else if even f then f else f + 1)"

text \<open>
  Rounding to the nearest double, ties to even: the exact value is cut to 53 significant
  bits (fewer below \<open>2 ^ - 1022\<close>, where the spacing stays \<open>2 ^ - 1074\<close>); what rounds to
  \<open>2 ^ 1024\<close> or beyond is an infinity.
\<close>

definition round_double :: "rat \<Rightarrow> jsnum" where
  "round_double q =
     (if q = 0 then Fin 0
      else
        (let a = \<bar>q\<bar>;
             e = max (- 1074) (floor_log2 a - 52);
             m = round_half_even (a / pow2 e);
             v = of_int m * pow2 e
         in if 2 ^ 1024 \<le> v then (if 0 < q then PosInfinity else NegInfinity)
            else Fin (if 0 < q then v else - v)))"

text \<open>
  The value of a number as it is written: \<open>Fin q\<close> in a config stands for the literal
  \<open>q\<close>, which denotes the nearest double (\<open>0.1\<close> is not a double itself).
\<close>

fun number_value :: "jsnum \<Rightarrow> jsnum" where
  "number_value (Fin q) = round_double q"
| "number_value x = x"

text \<open>\<open>a + b\<close> on numbers: the exact sum, rounded.\<close>

fun js_plus :: "jsnum \<Rightarrow> jsnum \<Rightarrow> jsnum" where
  "js_plus (Fin a) (Fin b) = round_double (a + b)"
| "js_plus NaN y = NaN"
| "js_plus x NaN = NaN"
| "js_plus PosInfinity NegInfinity = NaN"
| "js_plus NegInfinity PosInfinity = NaN"
| "js_plus PosInfinity y = PosInfinity"
| "js_plus x PosInfinity = PosInfinity"
| "js_plus NegInfinity y = NegInfinity"
| "js_plus x NegInfinity = NegInfinity"

text \<open>\<open>rando <= x\<close> for the integer \<open>rando\<close>: every comparison with \<open>NaN\<close> is false.\<close>

fun js_le :: "int \<Rightarrow> jsnum \<Rightarrow> bool" where
  "js_le r (Fin b) = (of_int r \<le> b)"
| "js_le r PosInfinity = True"
| "js_le r NegInfinity = False"
| "js_le r NaN = False"

text \<open>\<open>x > bound\<close> for an integer constant \<open>bound\<close>.\<close>

fun js_gt :: "jsnum \<Rightarrow> int \<Rightarrow> bool" where
  "js_gt (Fin a) bound = (of_int bound < a)"
| "js_gt PosInfinity bound = True"
| "js_gt NegInfinity bound = False"
| "js_gt NaN bound = False"

subsection \<open>JavaScript values\<close>

text \<open>
  The weight stored under a variation token is untyped in the source: the constructor
  tests \<open>typeof ... === 'number'\<close>, the cookie branch tests truthiness, and the draw loop
  adds and compares. The weights modelled are the primitives whose arithmetic stays
  numeric: \<open>undefined\<close>, \<open>null\<close>, booleans and numbers. A string or object weight is
  outside the model: adding it concatenates strings.
\<close>

datatype jsprim = JUndefined | JNull | JBool bool | JNum jsnum

text \<open>\<open>typeof w === 'number'\<close>\<close>

fun typeof_number :: "jsprim \<Rightarrow> bool" where
  "typeof_number (JNum x) = True"
| "typeof_number w = False"

text \<open>ToNumber, applied by \<open>+\<close> and \<open><=\<close> to an operand that is not a string.\<close>

fun to_number :: "jsprim \<Rightarrow> jsnum" where
  "to_number JUndefined = NaN"
| "to_number JNull = Fin 0"
| "to_number (JBool b) = Fin (if b then 1 else 0)"
| "to_number (JNum x) = number_value x"

text \<open>ToBoolean, as used by \<open>if (w)\<close> and \<open>!w\<close>: zero and \<open>NaN\<close> are the falsy numbers.\<close>

fun truthy :: "jsprim \<Rightarrow> bool" where
  "truthy JUndefined = False"
| "truthy JNull = False"
| "truthy (JBool b) = b"
| "truthy (JNum x) = (number_value x \<noteq> Fin 0 \<and> number_value x \<noteq> NaN)"

text \<open>Truthiness of a string: the empty string is falsy.\<close>

definition truthy_str :: "string \<Rightarrow> bool" where
  "truthy_str s = (s \<noteq> [])"

text \<open>
  Truthiness of a value that is a string or absent (\<open>undefined\<close> or \<open>null\<close>, here \<open>None\<close>).
\<close>

fun truthy_opt :: "string option \<Rightarrow> bool" where
  "truthy_opt None = False"
| "truthy_opt (Some s) = truthy_str s"

text \<open>
  \<open>a || b\<close> for an optional string argument \<open>a\<close> and a string default \<open>b\<close>: a missing
  or empty argument gives the default.
\<close>

fun js_or :: "string option \<Rightarrow> string \<Rightarrow> string" where
  "js_or None d = d"
| "js_or (Some s) d = (if truthy_str s then s else d)"

text \<open>
  \<open>String.prototype.indexOf\<close>: the position of the first occurrence of \<open>pat\<close>, or \<open>-1\<close>.
  \<open>indexOf_from k s pat\<close> searches the rest \<open>s\<close> of a string whose first \<open>k\<close> characters
  have been passed.
\<close>

fun indexOf_from :: "nat \<Rightarrow> string \<Rightarrow> string \<Rightarrow> int" where
  "indexOf_from k [] pat = (if pat = [] then int k else - 1)"
| "indexOf_from k (c # cs) pat =
     (if prefix pat (c # cs) then int k else indexOf_from (Suc k) cs pat)"

definition indexOf :: "string \<Rightarrow> string \<Rightarrow> int" where
  "indexOf s pat = indexOf_from 0 s pat"

text \<open>
  The experiment id is any value: a string, or something else (missing is
  \<open>IdPrim JUndefined\<close>).
\<close>

datatype jsid = IdStr string | IdPrim jsprim

fun typeof_string :: "jsid \<Rightarrow> bool" where
  "typeof_string (IdStr s) = True"
| "typeof_string (IdPrim p) = False"

fun truthy_id :: "jsid \<Rightarrow> bool" where
  "truthy_id (IdStr s) = truthy_str s"
| "truthy_id (IdPrim p) = truthy p"

subsection \<open>Objects: the variations\<close>

text \<open>
  \<open>variations\<close> is a plain object (an object literal): the list of its own enumerable
  properties, each key once, in the order they were inserted (written). \<open>None\<close> is a
  missing \<open>variations\<close> (\<open>undefined\<close>): \<open>for ... in\<close> over it runs no iteration, a
  property read on it throws.
\<close>

type_synonym variations = "(string \<times> jsprim) list"

text \<open>
  An array index is the canonical decimal form of an integer from 0 to \<open>2 ^ 32 - 2\<close>:
  digits only, no leading zero.
\<close>

definition is_digit :: "char \<Rightarrow> bool" where
  "is_digit c = (c \<in> set ''0123456789'')"

definition digit_value :: "char \<Rightarrow> nat" where
  "digit_value c = length (takeWhile (\<lambda>d. d \<noteq> c) ''0123456789'')"

definition decimal_value :: "string \<Rightarrow> nat" where
  "decimal_value s = foldl (\<lambda>n c. 10 * n + digit_value c) 0 s"

definition is_array_index :: "string \<Rightarrow> bool" where
  "is_array_index s =
     (s \<noteq> [] \<and> list_all is_digit s \<and> (s = ''0'' \<or> hd s \<noteq> CHR ''0'')
      \<and> decimal_value s < 2 ^ 32 - 1)"

text \<open>
  The order in which \<open>for (var v in ...)\<close> visits the own properties: the keys that are
  array indices first, in ascending numeric order, then the other keys in insertion
  order.
\<close>

fun for_in :: "variations option \<Rightarrow> variations" where
  "for_in None = []"
| "for_in (Some vs) =
     sort_key (\<lambda>p. decimal_value (fst p)) (filter (\<lambda>p. is_array_index (fst p)) vs)
     @ filter (\<lambda>p. \<not> is_array_index (fst p)) vs"

declare for_in.simps(2) [simp del]

text \<open>
  A property read \<open>variations[k]\<close> with a key that is not an own property reaches
  \<open>Object.prototype\<close>, whose properties are all truthy (functions, and the prototype
  object itself under \<open>__proto__\<close>).
\<close>

definition object_prototype_props :: "string list" where
  "object_prototype_props =
     [''constructor'', ''toString'', ''toLocaleString'', ''valueOf'', ''hasOwnProperty'',
      ''isPrototypeOf'', ''propertyIsEnumerable'', ''__proto__'', ''__defineGetter__'',
      ''__defineSetter__'', ''__lookupGetter__'', ''__lookupSetter__'']"

text \<open>The truthiness of \<open>variations[k]\<close>, as tested by \<open>if (this.variations[k])\<close>.\<close>

definition prop_truthy :: "variations \<Rightarrow> string \<Rightarrow> bool" where
  "prop_truthy vs k =
     (case map_of vs k of
        Some w \<Rightarrow> truthy w
      | None \<Rightarrow> k \<in> set object_prototype_props)"

subsection \<open>The browser: cookies, location, Do-Not-Track\<close>

text \<open>Every call of the cookie helper and every navigation is recorded, in order.\<close>

datatype event = HasItem jsid | GetItem jsid | SetItem jsid string | Navigate string

text \<open>
  \<open>dntEnabled\<close> is \<open>window._dntEnabled\<close>: \<open>None\<close> when it is not a function, \<open>Some b\<close>
  when it is a function whose result is truthy exactly when \<open>b\<close>.
  \<open>location_href\<close> is \<open>window.location\<close> as a string, \<open>location_search\<close> is
  \<open>window.location.search\<close>.
\<close>

record window =
  dntEnabled :: "bool option"
  location_href :: string
  location_search :: string
  cookies :: "jsid \<rightharpoonup> string"
  trace :: "event list"

text \<open>
  Modelled from the spec: \<open>Mozilla.Cookies\<close>, the cookie helper, is not part of the
  source file. The spec gives it as a key-value store of strings keyed by the
  experiment id, with \<open>hasItem(key) -> bool\<close>, \<open>getItem(key) -> string|null\<close> and
  \<open>setItem(key, value, ...)\<close>.
\<close>

definition hasItem :: "jsid \<Rightarrow> window \<Rightarrow> bool \<times> window" where
  "hasItem k w = (cookies w k \<noteq> None, w\<lparr>trace := trace w @ [HasItem k]\<rparr>)"

definition getItem :: "jsid \<Rightarrow> window \<Rightarrow> string option \<times> window" where
  "getItem k w = (cookies w k, w\<lparr>trace := trace w @ [GetItem k]\<rparr>)"

definition setItem :: "jsid \<Rightarrow> string \<Rightarrow> window \<Rightarrow> window" where
  "setItem k v w = w\<lparr>cookies := (cookies w)(k \<mapsto> v), trace := trace w @ [SetItem k v]\<rparr>"

text \<open>\<open>window.location.href = url\<close>\<close>

definition navigate :: "string \<Rightarrow> window \<Rightarrow> window" where
  "navigate url w = w\<lparr>location_href := url, trace := trace w @ [Navigate url]\<rparr>"

text \<open>
  A value used as a property key or appended to a string is converted to a string. The
  value is a string or \<open>None\<close>, which is the \<open>null\<close> that \<open>getItem\<close> gives for a missing
  cookie.
\<close>

fun to_key :: "string option \<Rightarrow> string" where
  "to_key None = ''null''"
| "to_key (Some s) = s"

subsection \<open>The constructor\<close>

record config =
  config_id :: jsid
  config_variations :: "variations option"

record traffic_cop =
  this_id :: jsid
  this_variations :: "variations option"
  this_totalPercentage :: jsnum
  this_redirectVariation :: "string option"

definition noVariationCookieValue :: string where
  "noVariationCookieValue = ''novariation''"

text \<open>
  The loop of the constructor, over the properties in \<open>for ... in\<close> order:
  \<open>hasOwnProperty\<close> holds of every own property; only the weights that are numbers are
  added, by \<open>this.totalPercentage += this.variations[v]\<close>.
\<close>

fun sumPercentages :: "jsnum \<Rightarrow> variations \<Rightarrow> jsnum" where
  "sumPercentages totalPercentage [] = totalPercentage"
| "sumPercentages totalPercentage ((v, w) # vs) =
     (if typeof_number w
      then sumPercentages (js_plus totalPercentage (to_number w)) vs
      else sumPercentages totalPercentage vs)"

text \<open>
  \<open>new Mozilla.TrafficCop(config)\<close>. The argument \<open>None\<close> is a \<open>config\<close> whose \<open>typeof\<close>
  is not \<open>'object'\<close>, replaced by \<open>{}\<close>: its \<open>id\<close> and \<open>variations\<close> are \<open>undefined\<close>.
  \<open>this.redirectVariation\<close> starts \<open>undefined\<close>.
\<close>

definition TrafficCop :: "config option \<Rightarrow> traffic_cop" where
  "TrafficCop arg =
     (let config = (case arg of
                      Some c \<Rightarrow> c
                    | None \<Rightarrow> \<lparr>config_id = IdPrim JUndefined, config_variations = None\<rparr>)
      in \<lparr>this_id = config_id config,
          this_variations = config_variations config,
          this_totalPercentage = sumPercentages (Fin 0) (for_in (config_variations config)),
          this_redirectVariation = None\<rparr>)"

subsection \<open>verifyConfig\<close>

definition verifyConfig :: "traffic_cop \<Rightarrow> bool" where
  "verifyConfig this =
     (if \<not> truthy_id (this_id this) \<or> \<not> typeof_string (this_id this) then False
      else if this_totalPercentage this = Fin 0 \<or> js_gt (this_totalPercentage this) 100
      then False
      else True)"

subsection \<open>isVariation\<close>

text \<open>The loop of \<open>isVariation\<close>, leaving at the first token found.\<close>

fun isVariation_loop :: "string \<Rightarrow> variations \<Rightarrow> bool" where
  "isVariation_loop queryString [] = False"
| "isVariation_loop queryString ((v, w) # vs) =
     (if indexOf queryString (CHR ''?'' # v) > - 1 \<or> indexOf queryString (CHR ''&'' # v) > - 1
      then True
      else isVariation_loop queryString vs)"

definition isVariation :: "string option \<Rightarrow> traffic_cop \<Rightarrow> window \<Rightarrow> bool" where
  "isVariation queryString this w =
     isVariation_loop (js_or queryString (location_search w)) (for_in (this_variations this))"

subsection \<open>generateRedirectUrl\<close>

datatype error = TypeError

text \<open>
  The loop of the fresh assignment: the token of the first variation with
  \<open>rando <= this.variations[v] + runningTotal\<close>, or \<open>None\<close> when the loop ends
  without assigning \<open>this.redirectVariation\<close>.
\<close>

fun assign_loop :: "int \<Rightarrow> jsnum \<Rightarrow> variations \<Rightarrow> string option" where
  "assign_loop rando runningTotal [] = None"
| "assign_loop rando runningTotal ((v, w) # vs) =
     (if js_le rando (js_plus (to_number w) runningTotal) then Some v
      else assign_loop rando (js_plus runningTotal (to_number w)) vs)"

text \<open>Lines 183 to 191: the URL built from \<open>this.redirectVariation\<close>, if one is set.\<close>

definition construct_url :: "string \<Rightarrow> string \<Rightarrow> traffic_cop \<Rightarrow> string option" where
  "construct_url url querystring this =
     (if truthy_opt (this_redirectVariation this) then
        (if truthy_str querystring
         then Some (url @ querystring @ ''&'' @ to_key (this_redirectVariation this))
         else Some (url @ ''?'' @ to_key (this_redirectVariation this)))
      else None)"

text \<open>
  \<open>rando\<close> is the number drawn by \<open>Math.floor(Math.random() * 100) + 1\<close>. The result
  is the returned value (\<open>None\<close> for \<open>undefined\<close>), the instance and the browser after
  the call, or the \<open>TypeError\<close> of reading a property of a missing \<open>variations\<close>.
\<close>

definition generateRedirectUrl ::
  "string option \<Rightarrow> string option \<Rightarrow> int \<Rightarrow> traffic_cop \<Rightarrow> window
     \<Rightarrow> error + (string option \<times> traffic_cop \<times> window)" where
  "generateRedirectUrl url_arg querystring_arg rando this w =
     (let url = js_or url_arg (location_href w);
          querystring = js_or querystring_arg (location_search w);
          (has, w1) = hasItem (this_id this) w
      in if has then
           (let (c1, w2) = getItem (this_id this) w1
            in case this_variations this of
                 None \<Rightarrow> Inl TypeError
               | Some vs \<Rightarrow>
                   if prop_truthy vs (to_key c1) then
                     (let (c2, w3) = getItem (this_id this) w2;
                          this' = this\<lparr>this_redirectVariation := c2\<rparr>
                      in Inr (construct_url url querystring this', this', w3))
                   else
                     (let (c3, w3) = getItem (this_id this) w2
                      in if c3 = Some noVariationCookieValue
                         then Inr (Some noVariationCookieValue, this, w3)
                         else Inr (construct_url url querystring this, this, w3)))
         else
           (let this' =
                  (if js_le rando (this_totalPercentage this) then
                     (case assign_loop rando (Fin 0) (for_in (this_variations this)) of
                        Some v \<Rightarrow> this\<lparr>this_redirectVariation := Some v\<rparr>
                      | None \<Rightarrow> this)
                   else this)
            in Inr (construct_url url querystring this', this', w1)))"

subsection \<open>init\<close>

text \<open>
  \<open>rando\<close> is the number the call of \<open>generateRedirectUrl\<close> draws. The cookie written
  on a redirect is \<open>this.redirectVariation\<close> as a string.
\<close>

definition init :: "int \<Rightarrow> traffic_cop \<Rightarrow> window \<Rightarrow> error + (traffic_cop \<times> window)" where
  "init rando this w =
     (if dntEnabled w = Some True then Inr (this, w)
      else if verifyConfig this then
        (if \<not> isVariation None this w then
           (case generateRedirectUrl None None rando this w of
              Inl e \<Rightarrow> Inl e
            | Inr (redirectUrl, this', w') \<Rightarrow>
                if truthy_opt redirectUrl then
                  (if redirectUrl \<noteq> Some noVariationCookieValue then
                     Inr (this', navigate (to_key redirectUrl)
                                   (setItem (this_id this')
                                      (case this_redirectVariation this' of
                                         Some v \<Rightarrow> v
                                       | None \<Rightarrow> ''undefined'') w'))
                   else Inr (this', w'))
                else Inr (this', setItem (this_id this') noVariationCookieValue w'))
         else Inr (this, w))
      else Inr (this, w))"

subsection \<open>The spec's notions, for comparison with the code\<close>

text \<open>Spec: a total, or a cumulative upper bound, that "is \<open>\<ge> r\<close>".\<close>

definition spec_at_least :: "jsnum \<Rightarrow> int \<Rightarrow> bool" where
  "spec_at_least x r =
     (case x of Fin q \<Rightarrow> of_int r \<le> q | PosInfinity \<Rightarrow> True | NegInfinity \<Rightarrow> False | NaN \<Rightarrow> False)"

text \<open>Spec: a total that "exceeds 100", and one "between 1 and 100 inclusive".\<close>

definition spec_exceeds :: "jsnum \<Rightarrow> int \<Rightarrow> bool" where
  "spec_exceeds x b =
     (case x of Fin q \<Rightarrow> of_int b < q | PosInfinity \<Rightarrow> True | NegInfinity \<Rightarrow> False | NaN \<Rightarrow> False)"

definition spec_between :: "jsnum \<Rightarrow> int \<Rightarrow> int \<Rightarrow> bool" where
  "spec_between x lo hi =
     (case x of Fin q \<Rightarrow> of_int lo \<le> q \<and> q \<le> of_int hi | _ \<Rightarrow> False)"

text \<open>
  Spec: the "cumulative upper bound (running total plus its weight)" of the variation at
  position \<open>i\<close> of the enumeration: the weights of the variations before it plus its own,
  added one after the other as numbers are added.
\<close>

definition spec_cumulative :: "variations \<Rightarrow> nat \<Rightarrow> jsnum" where
  "spec_cumulative vs i =
     foldl js_plus (Fin 0) (map (\<lambda>p. to_number (snd p)) (take (Suc i) vs))"

text \<open>
  The weights \<open>ws\<close> are the integers \<open>ns\<close>, and the sums are exact: every integer and
  every running sum is below \<open>2 ^ 53\<close> in absolute value, where each integer is a double.
\<close>

definition spec_integer_weights :: "jsprim list \<Rightarrow> int list \<Rightarrow> bool" where
  "spec_integer_weights ws ns = (ws = map (\<lambda>n. JNum (Fin (of_int n))) ns)"

definition spec_exact_sums :: "int list \<Rightarrow> bool" where
  "spec_exact_sums ns =
     (list_all (\<lambda>n. \<bar>n\<bar> < 2 ^ 53) ns
      \<and> list_all (\<lambda>k. \<bar>sum_list (take k ns)\<bar> < 2 ^ 53) [0..<Suc (length ns)])"

text \<open>
  Spec: the token \<open>v\<close> is in the query string "introduced by either \<open>?\<close> or \<open>&\<close> as the
  immediately preceding character"; nothing is asked of what follows it.
\<close>

definition spec_token_after_delimiter :: "string \<Rightarrow> string \<Rightarrow> bool" where
  "spec_token_after_delimiter v q =
     (\<exists>before after. q = before @ ''?'' @ v @ after \<or> q = before @ ''&'' @ v @ after)"

text \<open>
  Spec: the token "appears as a query parameter". The parameters of a query string are
  the pieces between the \<open>&\<close> signs, after the leading \<open>?\<close>.
\<close>

fun split_on :: "char \<Rightarrow> string \<Rightarrow> string list" where
  "split_on c [] = [[]]"
| "split_on c (x # xs) =
     (if x = c then [] # split_on c xs
      else (case split_on c xs of
              [] \<Rightarrow> [[x]]
            | piece # pieces \<Rightarrow> (x # piece) # pieces))"

definition spec_query_parameters :: "string \<Rightarrow> string list" where
  "spec_query_parameters q =
     split_on (CHR ''&'') (if q \<noteq> [] \<and> hd q = CHR ''?'' then tl q else q)"

subsection \<open>The concrete scenario of the spec\<close>

text \<open>
  The config \<open>{id: 'exp1', variations: {'v=1': 25, 'v=2': 25}}\<close>, and a first visit of
  a page without query string: no cookie, no Do-Not-Track function.
\<close>

definition exp1 :: config where
  "exp1 = \<lparr>config_id = IdStr ''exp1'',
           config_variations = Some [(''v=1'', JNum (Fin 25)), (''v=2'', JNum (Fin 25))]\<rparr>"

definition page :: window where
  "page = \<lparr>dntEnabled = None, location_href = ''https://www.mozilla.org/firefox/new/'',
            location_search = [], cookies = Map.empty, trace = []\<rparr>"

lemmas gen_defs = generateRedirectUrl_def hasItem_def getItem_def Let_def

lemmas run_defs =
  exp1_def page_def TrafficCop_def verifyConfig_def isVariation_def indexOf_def
  generateRedirectUrl_def init_def hasItem_def getItem_def setItem_def navigate_def
  construct_url_def prop_truthy_def object_prototype_props_def noVariationCookieValue_def
  truthy_str_def is_array_index_def is_digit_def digit_value_def decimal_value_def
  spec_cumulative_def spec_at_least_def spec_exceeds_def spec_between_def
  spec_query_parameters_def for_in.simps(2)

section \<open>Properties\<close>

subsection \<open>Numbers: integers below \<open>2 ^ 53\<close> are added exactly\<close>

lemma round_half_even_int [simp]: "round_half_even (of_int z) = z"
  by (simp add: round_half_even_def)

lemma floor_log2_int_le:
  assumes "0 < n" and "n < 2 ^ 53"
  shows "floor_log2 (of_int n) \<le> 52"
proof -
  from assms(2) have "bitlen n \<le> 53"
    by (simp add: bitlen_le_iff_power)
  moreover have "bitlen 1 = 1" by (simp add: bitlen_alt_def)
  ultimately show ?thesis
    by (simp add: floor_log2_def Let_def)
qed

lemma round_double_pos_int:
  assumes "0 < n" and "n < 2 ^ 53"
  shows "round_double (of_int n) = Fin (of_int n)"
proof -
  define e where "e = max (- 1074) (floor_log2 (of_int n) - 52)"
  have e: "e \<le> 0" using floor_log2_int_le[OF assms] by (simp add: e_def)
  define j where "j = nat (- e)"
  from e have p: "pow2 e = 1 / 2 ^ j"
    by (cases "e = 0") (simp_all add: pow2_def j_def)
  have "of_int n / pow2 e = (of_int (n * 2 ^ j) :: rat)"
    by (simp add: p)
  then have m: "round_half_even (of_int n / pow2 e) = n * 2 ^ j"
    by (simp only: round_half_even_int)
  have v: "(of_int (n * 2 ^ j) :: rat) * pow2 e = of_int n"
    by (simp add: p)
  have "(of_int n :: rat) < 2 ^ 53"
    using assms(2) by (metis of_int_less_iff of_int_numeral of_int_power)
  also have "\<dots> \<le> (2::rat) ^ 1024" by (rule power_increasing) simp_all
  finally have small: "\<not> (2::rat) ^ 1024 \<le> of_int n" by simp
  have a: "\<bar>of_int n :: rat\<bar> = of_int n" using assms(1) by simp
  show ?thesis
    using assms(1) small
    by (simp add: round_double_def Let_def a e_def[symmetric] m v del: of_int_mult of_int_power)
qed

lemma round_double_neg:
  "round_double (- q) =
     (case round_double q of
        Fin v \<Rightarrow> Fin (- v)
      | PosInfinity \<Rightarrow> NegInfinity
      | NegInfinity \<Rightarrow> PosInfinity
      | NaN \<Rightarrow> NaN)"
  by (simp add: round_double_def Let_def)

lemma round_double_int:
  assumes "\<bar>n\<bar> < 2 ^ 53"
  shows "round_double (of_int n) = Fin (of_int n)"
proof -
  consider "n = 0" | "0 < n" | "n < 0" by linarith
  then show ?thesis
  proof cases
    case 1
    then show ?thesis by (simp add: round_double_def)
  next
    case 2
    with assms show ?thesis by (simp add: round_double_pos_int)
  next
    case 3
    with assms have "round_double (of_int (- n)) = Fin (of_int (- n))"
      by (intro round_double_pos_int) simp_all
    then show ?thesis using round_double_neg[of "of_int (- n)"] by simp
  qed
qed

lemma round_double_numeral [simp]:
  "numeral k < (2::int) ^ 53 \<Longrightarrow> round_double (numeral k) = Fin (numeral k)"
  using round_double_int[of "numeral k"] by simp

lemma round_double_neg_numeral [simp]:
  "numeral k < (2::int) ^ 53 \<Longrightarrow> round_double (- numeral k) = Fin (- numeral k)"
  using round_double_int[of "- numeral k"] by simp

lemma round_double_0 [simp]: "round_double 0 = Fin 0"
  by (simp add: round_double_def)

lemma round_double_1 [simp]: "round_double 1 = Fin 1"
  using round_double_int[of 1] by simp

text \<open>
  Fractions are rounded: the literal \<open>0.1\<close> denotes the double \<open>3602879701896397 / 2 ^ 55\<close>,
  and \<open>0.1 + 0.2\<close> is \<open>0.30000000000000004\<close>, the double \<open>1351079888211149 / 2 ^ 52\<close>.
\<close>

lemma round_double_tenth:
  "round_double (1 / 10) = Fin (3602879701896397 / 36028797018963968)"
  by code_simp

lemma js_plus_tenths:
  "js_plus (number_value (Fin (1 / 10))) (number_value (Fin (2 / 10))) =
     Fin (1351079888211149 / 4503599627370496)"
  by code_simp

lemma js_plus_commute: "js_plus a b = js_plus b a"
  by (cases a; cases b) (simp_all add: add.commute)

lemma spec_at_least_js_le: "spec_at_least x r = js_le r x"
  by (cases x) (simp_all add: spec_at_least_def)

lemma spec_exceeds_js_gt: "spec_exceeds x b = js_gt x b"
  by (cases x) (simp_all add: spec_exceeds_def)

text \<open>Integers below \<open>2 ^ 53\<close> whose running sums stay below \<open>2 ^ 53\<close> are added exactly.\<close>

lemma foldl_js_plus_exact:
  assumes "spec_exact_sums ns"
  shows "foldl js_plus (Fin 0) (map (\<lambda>n. to_number (JNum (Fin (of_int n)))) ns) =
           Fin (of_int (sum_list ns))"
  using assms
proof (induction ns rule: rev_induct)
  case Nil
  then show ?case by simp
next
  case (snoc n ns)
  from snoc.prems have each: "\<forall>m \<in> set (ns @ [n]). \<bar>m\<bar> < 2 ^ 53"
    and sums: "\<forall>k \<in> set [0..<Suc (length (ns @ [n]))].
                 \<bar>sum_list (take k (ns @ [n]))\<bar> < 2 ^ 53"
    unfolding spec_exact_sums_def list_all_iff by blast+
  from each have n: "\<bar>n\<bar> < 2 ^ 53" by simp
  have "Suc (length ns) \<in> set [0..<Suc (length (ns @ [n]))]" by simp
  with sums have "\<bar>sum_list (take (Suc (length ns)) (ns @ [n]))\<bar> < 2 ^ 53" by blast
  then have last: "\<bar>sum_list ns + n\<bar> < 2 ^ 53" by simp
  have "spec_exact_sums ns"
    unfolding spec_exact_sums_def list_all_iff
  proof (intro conjI ballI)
    fix m assume "m \<in> set ns"
    with each show "\<bar>m\<bar> < 2 ^ 53" by simp
  next
    fix k assume "k \<in> set [0..<Suc (length ns)]"
    then have k: "k \<le> length ns" by auto
    then have "k \<in> set [0..<Suc (length (ns @ [n]))]" by auto
    with sums have "\<bar>sum_list (take k (ns @ [n]))\<bar> < 2 ^ 53" by blast
    with k show "\<bar>sum_list (take k ns)\<bar> < 2 ^ 53" by simp
  qed
  then have IH: "foldl js_plus (Fin 0) (map (\<lambda>n. to_number (JNum (Fin (of_int n)))) ns) =
                   Fin (of_int (sum_list ns))"
    by (rule snoc.IH)
  have "js_plus (Fin (of_int (sum_list ns))) (round_double (of_int n)) =
          round_double (of_int (sum_list ns + n))"
    using round_double_int[OF n] by simp
  also have "\<dots> = Fin (of_int (sum_list ns + n))"
    using round_double_int[OF last] .
  finally show ?case using IH by simp
qed

subsection \<open>The constructor and verifyConfig\<close>

lemma this_TrafficCop [simp]:
  "this_id (TrafficCop (Some cfg)) = config_id cfg"
  "this_variations (TrafficCop (Some cfg)) = config_variations cfg"
  "this_redirectVariation (TrafficCop (Some cfg)) = None"
  by (simp_all add: TrafficCop_def)

lemma sumPercentages_foldl:
  "sumPercentages t vs = foldl js_plus t (map to_number (filter typeof_number (map snd vs)))"
proof (induction vs arbitrary: t)
  case Nil
  then show ?case by simp
next
  case (Cons p vs)
  obtain v w where p: "p = (v, w)" by (cases p)
  show ?case using Cons.IH by (simp add: p)
qed

lemma totalPercentage_TrafficCop:
  "this_totalPercentage (TrafficCop (Some cfg)) =
     foldl js_plus (Fin 0)
       (map to_number (filter typeof_number (map snd (for_in (config_variations cfg)))))"
  by (simp add: TrafficCop_def sumPercentages_foldl)

text \<open>
  C7, amended. For every config, \<open>verifyConfig\<close> returns false whenever the id is not a
  non-empty string, or the total of the numeric variation weights, as the constructor
  adds them (in double precision, in enumeration order), is exactly 0 or exceeds 100; it
  returns true when the id is a non-empty string and that total is between 1 and 100
  inclusive. That total is the exact sum of the numeric weights whenever these are
  integers below \<open>2 ^ 53\<close> in absolute value whose running sums stay below \<open>2 ^ 53\<close>.
  (Nothing is said here of a negative total.)
\<close>

theorem verifyConfig_id_and_total:
  "((\<not> (\<exists>s. config_id cfg = IdStr s \<and> s \<noteq> [])
      \<or> this_totalPercentage (TrafficCop (Some cfg)) = Fin 0
      \<or> spec_exceeds (this_totalPercentage (TrafficCop (Some cfg))) 100)
     \<longrightarrow> \<not> verifyConfig (TrafficCop (Some cfg)))
   \<and> ((\<exists>s. config_id cfg = IdStr s \<and> s \<noteq> [])
        \<and> spec_between (this_totalPercentage (TrafficCop (Some cfg))) 1 100
     \<longrightarrow> verifyConfig (TrafficCop (Some cfg)))
   \<and> (\<forall>ns. spec_integer_weights
               (filter typeof_number (map snd (for_in (config_variations cfg)))) ns
             \<and> spec_exact_sums ns
         \<longrightarrow> this_totalPercentage (TrafficCop (Some cfg)) = Fin (of_int (sum_list ns)))"
proof (intro conjI allI impI)
  assume "\<not> (\<exists>s. config_id cfg = IdStr s \<and> s \<noteq> [])
      \<or> this_totalPercentage (TrafficCop (Some cfg)) = Fin 0
      \<or> spec_exceeds (this_totalPercentage (TrafficCop (Some cfg))) 100"
  then show "\<not> verifyConfig (TrafficCop (Some cfg))"
    by (cases "config_id cfg")
       (auto simp add: verifyConfig_def spec_exceeds_js_gt truthy_str_def)
next
  assume a: "(\<exists>s. config_id cfg = IdStr s \<and> s \<noteq> [])
        \<and> spec_between (this_totalPercentage (TrafficCop (Some cfg))) 1 100"
  then obtain q where "this_totalPercentage (TrafficCop (Some cfg)) = Fin q"
    and "1 \<le> q" and "q \<le> 100"
    by (cases "this_totalPercentage (TrafficCop (Some cfg))")
       (simp_all add: spec_between_def)
  with a show "verifyConfig (TrafficCop (Some cfg))"
    by (auto simp add: verifyConfig_def truthy_str_def)
next
  fix ns
  assume "spec_integer_weights
            (filter typeof_number (map snd (for_in (config_variations cfg)))) ns
          \<and> spec_exact_sums ns"
  then have w: "filter typeof_number (map snd (for_in (config_variations cfg))) =
                  map (\<lambda>n. JNum (Fin (of_int n))) ns"
    and e: "spec_exact_sums ns"
    by (simp_all add: spec_integer_weights_def)
  show "this_totalPercentage (TrafficCop (Some cfg)) = Fin (of_int (sum_list ns))"
    using foldl_js_plus_exact[OF e]
    by (simp add: totalPercentage_TrafficCop w comp_def)
qed

text \<open>
  The theorem at three configs: a total of 0 and a total of 150 are refused; the
  scenario's weights 25 and 25 add up to exactly 50, which under the id \<open>'exp1'\<close> is
  accepted.
\<close>

theorem verifyConfig_id_and_total_witness:
  "\<not> verifyConfig (TrafficCop (Some \<lparr>config_id = IdStr ''exp1'',
        config_variations = Some [(''v=1'', JNum (Fin 0))]\<rparr>))
   \<and> \<not> verifyConfig (TrafficCop (Some \<lparr>config_id = IdStr ''exp1'',
        config_variations = Some [(''v=1'', JNum (Fin 75)), (''v=2'', JNum (Fin 75))]\<rparr>))
   \<and> this_totalPercentage (TrafficCop (Some exp1)) = Fin 50
   \<and> verifyConfig (TrafficCop (Some exp1))"
proof -
  let ?zero = "\<lparr>config_id = IdStr ''exp1'',
                 config_variations = Some [(''v=1'', JNum (Fin 0))]\<rparr>"
  let ?over = "\<lparr>config_id = IdStr ''exp1'',
                 config_variations = Some [(''v=1'', JNum (Fin 75)), (''v=2'', JNum (Fin 75))]\<rparr>"
  have "this_totalPercentage (TrafficCop (Some ?zero)) = Fin 0"
    by (simp add: run_defs)
  with verifyConfig_id_and_total[of ?zero]
  have a: "\<not> verifyConfig (TrafficCop (Some ?zero))" by blast
  have "spec_exceeds (this_totalPercentage (TrafficCop (Some ?over))) 100"
    by (simp add: run_defs)
  with verifyConfig_id_and_total[of ?over]
  have b: "\<not> verifyConfig (TrafficCop (Some ?over))" by blast
  have "spec_integer_weights
          (filter typeof_number (map snd (for_in (config_variations exp1)))) [25, 25]"
    and "spec_exact_sums [25, 25]"
    by (simp_all add: run_defs spec_integer_weights_def spec_exact_sums_def upt_rec)
  with verifyConfig_id_and_total[of exp1]
  have t: "this_totalPercentage (TrafficCop (Some exp1)) = Fin (of_int (sum_list [25, 25]))"
    by blast
  then have t50: "this_totalPercentage (TrafficCop (Some exp1)) = Fin 50" by simp
  then have "spec_between (this_totalPercentage (TrafficCop (Some exp1))) 1 100"
    by (simp add: spec_between_def)
  moreover have "\<exists>s. config_id exp1 = IdStr s \<and> s \<noteq> []" by (simp add: exp1_def)
  ultimately have c: "verifyConfig (TrafficCop (Some exp1))"
    using verifyConfig_id_and_total[of exp1] by blast
  from a b t50 c show ?thesis by blast
qed

text \<open>
  C7 as stated fails three times. A negative total is accepted: \<open>{'v=1': -5}\<close> under the
  id \<open>'exp1'\<close> passes, since the total is neither \<open>=== 0\<close> nor \<open>> 100\<close>. A string id does
  not suffice: the empty string is falsy, so \<open>{'v=1': 50}\<close> under the empty id is refused.
  And the total is not always the sum: the weights \<open>2 ^ 53\<close>, 1 and \<open>- 2 ^ 53\<close> have the
  sum 1, but \<open>2 ^ 53 + 1\<close> is rounded to \<open>2 ^ 53\<close>, the total is 0 and the config is
  refused.
\<close>

theorem verifyConfig_claim_counterexample:
  "verifyConfig (TrafficCop (Some \<lparr>config_id = IdStr ''exp1'',
        config_variations = Some [(''v=1'', JNum (Fin (- 5)))]\<rparr>))
   \<and> \<not> verifyConfig (TrafficCop (Some \<lparr>config_id = IdStr [],
        config_variations = Some [(''v=1'', JNum (Fin 50))]\<rparr>))
   \<and> sum_list [9007199254740992, 1, - 9007199254740992] = (1::int)
   \<and> this_totalPercentage (TrafficCop (Some \<lparr>config_id = IdStr ''exp1'',
        config_variations = Some [(''v=1'', JNum (Fin 9007199254740992)),
          (''v=2'', JNum (Fin 1)), (''v=3'', JNum (Fin (- 9007199254740992)))]\<rparr>)) = Fin 0
   \<and> \<not> verifyConfig (TrafficCop (Some \<lparr>config_id = IdStr ''exp1'',
        config_variations = Some [(''v=1'', JNum (Fin 9007199254740992)),
          (''v=2'', JNum (Fin 1)), (''v=3'', JNum (Fin (- 9007199254740992)))]\<rparr>))"
proof -
  have big: "round_double 9007199254740992 = Fin 9007199254740992"
    and big1: "round_double 9007199254740993 = Fin 9007199254740992"
    and nbig: "round_double (- 9007199254740992) = Fin (- 9007199254740992)"
    by code_simp+
  show ?thesis
    by (simp add: run_defs big big1 nbig)
qed

subsection \<open>isVariation\<close>

lemma indexOf_from_found: "(indexOf_from k s pat > - 1) = sublist pat s"
proof (induction s arbitrary: k)
  case Nil
  then show ?case by simp
next
  case (Cons c cs)
  then show ?case by (simp add: sublist_Cons_right)
qed

lemma indexOf_found: "(indexOf s pat > - 1) = (\<exists>before after. s = before @ pat @ after)"
  by (simp add: indexOf_def indexOf_from_found sublist_def)

lemma isVariation_loop_iff:
  "isVariation_loop q vs = (\<exists>v \<in> fst ` set vs. spec_token_after_delimiter v q)"
proof (induction vs)
  case Nil
  then show ?case by simp
next
  case (Cons p vs)
  obtain v w where p: "p = (v, w)" by (cases p)
  show ?case using Cons.IH
    by (auto simp add: p indexOf_found spec_token_after_delimiter_def)
qed

lemma set_for_in: "set (for_in (Some vs)) = set vs"
  by (auto simp add: for_in.simps)

text \<open>
  C8, amended. For every instance (so for every config) and every query string,
  \<open>isVariation\<close> returns true if and only if some configured variation token occurs in
  the query string with \<open>?\<close> or \<open>&\<close> immediately before it, whatever follows the token; a
  token that occurs only without \<open>?\<close> or \<open>&\<close> before it does not count, and with no such
  token the result is false. The query string examined is the argument, or
  \<open>window.location.search\<close> when the argument is missing or empty.
\<close>

theorem isVariation_iff_token_after_delimiter:
  "isVariation queryString this w =
     (\<exists>vs v. this_variations this = Some vs \<and> v \<in> fst ` set vs
        \<and> spec_token_after_delimiter v
             (case queryString of
                None \<Rightarrow> location_search w
              | Some q \<Rightarrow> if q = [] then location_search w else q))"
proof (cases "this_variations this")
  case None
  then show ?thesis by (simp add: isVariation_def)
next
  case (Some vs)
  have "js_or queryString (location_search w) =
          (case queryString of
             None \<Rightarrow> location_search w
           | Some q \<Rightarrow> if q = [] then location_search w else q)"
    by (cases queryString) (simp_all add: truthy_str_def)
  then show ?thesis
    using Some by (simp add: isVariation_def isVariation_loop_iff set_for_in)
qed

text \<open>
  On the scenario's config: \<open>?a=b&v=2\<close> holds the token \<open>v=2\<close> after \<open>&\<close>; in \<open>?xv=1\<close> the
  token \<open>v=1\<close> has neither \<open>?\<close> nor \<open>&\<close> before it; in \<open>?v=10\<close> the token \<open>v=1\<close> stands
  after \<open>?\<close> and counts, whatever follows it.
\<close>

theorem isVariation_iff_token_after_delimiter_witness:
  "(\<exists>vs v. this_variations (TrafficCop (Some exp1)) = Some vs \<and> v \<in> fst ` set vs
       \<and> spec_token_after_delimiter v ''?a=b&v=2'')
   \<and> \<not> (\<exists>vs v. this_variations (TrafficCop (Some exp1)) = Some vs \<and> v \<in> fst ` set vs
       \<and> spec_token_after_delimiter v ''?xv=1'')
   \<and> (\<exists>vs v. this_variations (TrafficCop (Some exp1)) = Some vs \<and> v \<in> fst ` set vs
       \<and> spec_token_after_delimiter v ''?v=10'')"
proof -
  have "isVariation (Some ''?a=b&v=2'') (TrafficCop (Some exp1)) page"
    and "\<not> isVariation (Some ''?xv=1'') (TrafficCop (Some exp1)) page"
    and "isVariation (Some ''?v=10'') (TrafficCop (Some exp1)) page"
    by (simp_all add: run_defs)
  then show ?thesis
    unfolding isVariation_iff_token_after_delimiter by simp
qed

text \<open>
  C8 as stated fails: \<open>isVariation\<close> does not ask that the token be a query parameter.
  In \<open>?a=b?v=1\<close> the only parameter is \<open>a=b?v=1\<close>, and the token \<open>v=1\<close> occurs inside its
  value; in \<open>?value=3\<close> the token \<open>v\<close> occurs inside the parameter's name; in \<open>?v=10\<close> the
  parameter is \<open>v=10\<close>, not the token \<open>v=1\<close>. All three are reported as a variation.
\<close>

theorem isVariation_claim_counterexample:
  "isVariation (Some ''?a=b?v=1'') (TrafficCop (Some exp1)) page
   \<and> spec_query_parameters ''?a=b?v=1'' = [''a=b?v=1'']
   \<and> isVariation (Some ''?value=3'')
       (TrafficCop (Some \<lparr>config_id = IdStr ''exp1'',
          config_variations = Some [(''v'', JNum (Fin 50))]\<rparr>)) page
   \<and> spec_query_parameters ''?value=3'' = [''value=3'']
   \<and> isVariation (Some ''?v=10'') (TrafficCop (Some exp1)) page
   \<and> spec_query_parameters ''?v=10'' = [''v=10'']"
  by (simp add: run_defs)

subsection \<open>init under Do-Not-Track\<close>

text \<open>
  C9. For every instance (so for every config) and every starting cookie store and
  location, if \<open>window._dntEnabled\<close> is a function and returns true, \<open>init\<close> returns with
  the browser and the instance as they were: no variation assigned, no call of the
  cookie helper (neither a read nor a write), no navigation.
\<close>

theorem init_dnt_noop:
  "dntEnabled w = Some True \<Longrightarrow> init rando this w = Inr (this, w)"
  by (simp add: init_def)

theorem init_dnt_noop_witness:
  "dntEnabled (page\<lparr>dntEnabled := Some True\<rparr>) = Some True
   \<and> init 10 (TrafficCop (Some exp1)) (page\<lparr>dntEnabled := Some True\<rparr>) =
       Inr (TrafficCop (Some exp1), page\<lparr>dntEnabled := Some True\<rparr>)"
proof -
  have h: "dntEnabled (page\<lparr>dntEnabled := Some True\<rparr>) = Some True" by simp
  from h init_dnt_noop[OF h, of 10 "TrafficCop (Some exp1)"] show ?thesis by blast
qed

subsection \<open>generateRedirectUrl with a cookie\<close>

lemma construct_url_None [simp]:
  "this_redirectVariation this = None \<Longrightarrow> construct_url url q this = None"
  by (simp add: construct_url_def)

text \<open>
  C1, amended. For every valid config, if the cookie store has an entry for the
  experiment id whose value is neither a key of \<open>variations\<close>, nor the no-variation
  sentinel, nor the name of a property inherited from \<open>Object.prototype\<close>, then
  \<open>generateRedirectUrl\<close> makes no fresh assignment: whatever the draw, it chooses no
  variation and returns \<open>undefined\<close>, having only read the cookie.
\<close>

theorem stale_cookie_no_assignment:
  assumes "verifyConfig (TrafficCop (Some cfg))"
    and "config_variations cfg = Some vs"
    and "cookies w (config_id cfg) = Some c"
    and "c \<notin> fst ` set vs"
    and "c \<noteq> noVariationCookieValue"
    and "c \<notin> set object_prototype_props"
  shows "generateRedirectUrl url querystring rando (TrafficCop (Some cfg)) w =
           Inr (None, TrafficCop (Some cfg),
                w\<lparr>trace := trace w @ [HasItem (config_id cfg), GetItem (config_id cfg),
                                        GetItem (config_id cfg)]\<rparr>)"
proof -
  from assms(4) have "map_of vs c = None" by (simp add: map_of_eq_None_iff)
  with assms(6) have "\<not> prop_truthy vs c" by (simp add: prop_truthy_def)
  with assms(2,3,5) show ?thesis by (simp add: gen_defs)
qed

theorem stale_cookie_no_assignment_witness:
  "generateRedirectUrl None None 10 (TrafficCop (Some exp1))
       (page\<lparr>cookies := [IdStr ''exp1'' \<mapsto> ''v=9'']\<rparr>) =
     Inr (None, TrafficCop (Some exp1),
          page\<lparr>cookies := [IdStr ''exp1'' \<mapsto> ''v=9''],
               trace := [HasItem (IdStr ''exp1''), GetItem (IdStr ''exp1''),
                         GetItem (IdStr ''exp1'')]\<rparr>)"
proof -
  let ?w = "page\<lparr>cookies := [IdStr ''exp1'' \<mapsto> ''v=9'']\<rparr>"
  let ?vs = "[(''v=1'', JNum (Fin 25)), (''v=2'', JNum (Fin 25))]"
  have h1: "verifyConfig (TrafficCop (Some exp1))" by (simp add: run_defs)
  have h2: "config_variations exp1 = Some ?vs" by (simp add: exp1_def)
  have h3: "cookies ?w (config_id exp1) = Some ''v=9''" by (simp add: run_defs)
  have h4: "''v=9'' \<notin> fst ` set ?vs" by simp
  have h5: "''v=9'' \<noteq> noVariationCookieValue" by (simp add: run_defs)
  have h6: "''v=9'' \<notin> set object_prototype_props" by (simp add: run_defs)
  from stale_cookie_no_assignment[OF h1 h2 h3 h4 h5 h6, of None None 10] show ?thesis
    by (simp add: run_defs)
qed

text \<open>
  C1 as stated fails. With the stale cookie \<open>exp1 = 'v=9'\<close> and the draw 10 nothing is
  assigned, while the same draw without a cookie assigns \<open>v=1\<close>: the fresh assignment
  is the \<open>else\<close> branch of \<open>hasItem\<close>. And the cookie \<open>exp1 = 'constructor'\<close>, not a key of
  \<open>variations\<close> either, is adopted as the variation whatever the draw, because
  \<open>variations['constructor']\<close> is the inherited, truthy \<open>Object\<close> function.
\<close>

theorem stale_cookie_claim_counterexample:
  "generateRedirectUrl None None 10 (TrafficCop (Some exp1))
       (page\<lparr>cookies := [IdStr ''exp1'' \<mapsto> ''v=9'']\<rparr>) =
     Inr (None, TrafficCop (Some exp1),
          page\<lparr>cookies := [IdStr ''exp1'' \<mapsto> ''v=9''],
               trace := [HasItem (IdStr ''exp1''), GetItem (IdStr ''exp1''),
                         GetItem (IdStr ''exp1'')]\<rparr>)
   \<and> generateRedirectUrl None None 10 (TrafficCop (Some exp1)) page =
     Inr (Some ''https://www.mozilla.org/firefox/new/?v=1'',
          (TrafficCop (Some exp1))\<lparr>this_redirectVariation := Some ''v=1''\<rparr>,
          page\<lparr>trace := [HasItem (IdStr ''exp1'')]\<rparr>)
   \<and> generateRedirectUrl None None 80 (TrafficCop (Some exp1))
       (page\<lparr>cookies := [IdStr ''exp1'' \<mapsto> ''constructor'']\<rparr>) =
     Inr (Some ''https://www.mozilla.org/firefox/new/?constructor'',
          (TrafficCop (Some exp1))\<lparr>this_redirectVariation := Some ''constructor''\<rparr>,
          page\<lparr>cookies := [IdStr ''exp1'' \<mapsto> ''constructor''],
               trace := [HasItem (IdStr ''exp1''), GetItem (IdStr ''exp1''),
                         GetItem (IdStr ''exp1'')]\<rparr>)"
  by (simp add: run_defs)

text \<open>
  C5, amended. For every valid config and every stored cookie value that is a non-empty
  key of \<open>variations\<close> whose weight is truthy (not 0), \<open>generateRedirectUrl\<close> adopts the
  stored value as the chosen variation and returns the URL that ends in that token
  (the URL, then the query string and \<open>&\<close>, or \<open>?\<close> when there is no query string, then
  the token), for every draw.
\<close>

theorem cookie_variation_adopted:
  assumes "verifyConfig (TrafficCop (Some cfg))"
    and "config_variations cfg = Some vs"
    and "cookies w (config_id cfg) = Some c"
    and "map_of vs c = Some wt"
    and "truthy wt"
    and "c \<noteq> []"
  shows "generateRedirectUrl url querystring rando (TrafficCop (Some cfg)) w =
           Inr (Some (js_or url (location_href w) @
                      (if js_or querystring (location_search w) = [] then ''?''
                       else js_or querystring (location_search w) @ ''&'') @ c),
                (TrafficCop (Some cfg))\<lparr>this_redirectVariation := Some c\<rparr>,
                w\<lparr>trace := trace w @ [HasItem (config_id cfg), GetItem (config_id cfg),
                                        GetItem (config_id cfg)]\<rparr>)"
proof -
  from assms(4,5) have "prop_truthy vs c" by (simp add: prop_truthy_def)
  with assms(2,3,6) show ?thesis
    by (simp add: gen_defs construct_url_def truthy_str_def)
qed

text \<open>The spec's scenario: the cookie \<open>exp1 = 'v=2'\<close>, here with the draw 10.\<close>

theorem cookie_variation_adopted_witness:
  "generateRedirectUrl None None 10 (TrafficCop (Some exp1))
       (page\<lparr>cookies := [IdStr ''exp1'' \<mapsto> ''v=2'']\<rparr>) =
     Inr (Some ''https://www.mozilla.org/firefox/new/?v=2'',
          (TrafficCop (Some exp1))\<lparr>this_redirectVariation := Some ''v=2''\<rparr>,
          page\<lparr>cookies := [IdStr ''exp1'' \<mapsto> ''v=2''],
               trace := [HasItem (IdStr ''exp1''), GetItem (IdStr ''exp1''),
                         GetItem (IdStr ''exp1'')]\<rparr>)"
proof -
  let ?w = "page\<lparr>cookies := [IdStr ''exp1'' \<mapsto> ''v=2'']\<rparr>"
  let ?vs = "[(''v=1'', JNum (Fin 25)), (''v=2'', JNum (Fin 25))]"
  have h1: "verifyConfig (TrafficCop (Some exp1))" by (simp add: run_defs)
  have h2: "config_variations exp1 = Some ?vs" by (simp add: exp1_def)
  have h3: "cookies ?w (config_id exp1) = Some ''v=2''" by (simp add: run_defs)
  have h4: "map_of ?vs ''v=2'' = Some (JNum (Fin 25))" by simp
  have h5: "truthy (JNum (Fin 25))" by simp
  have h6: "''v=2'' \<noteq> []" by simp
  from cookie_variation_adopted[OF h1 h2 h3 h4 h5 h6, of None None 10] show ?thesis
    by (simp add: run_defs)
qed

text \<open>
  C5 as stated fails. In \<open>{'v=1': 0, 'v=2': 50}\<close> the stored value \<open>v=1\<close> is a key of
  \<open>variations\<close>, but its weight 0 is falsy: it is not adopted and no URL is returned. In
  \<open>{'': 50}\<close> the stored empty token is adopted, but it is falsy itself and no URL is
  built from it.
\<close>

theorem cookie_variation_claim_counterexample:
  "generateRedirectUrl None None 10
       (TrafficCop (Some \<lparr>config_id = IdStr ''exp1'',
          config_variations = Some [(''v=1'', JNum (Fin 0)), (''v=2'', JNum (Fin 50))]\<rparr>))
       (page\<lparr>cookies := [IdStr ''exp1'' \<mapsto> ''v=1'']\<rparr>) =
     Inr (None,
          TrafficCop (Some \<lparr>config_id = IdStr ''exp1'',
            config_variations = Some [(''v=1'', JNum (Fin 0)), (''v=2'', JNum (Fin 50))]\<rparr>),
          page\<lparr>cookies := [IdStr ''exp1'' \<mapsto> ''v=1''],
               trace := [HasItem (IdStr ''exp1''), GetItem (IdStr ''exp1''),
                         GetItem (IdStr ''exp1'')]\<rparr>)
   \<and> generateRedirectUrl None None 10
       (TrafficCop (Some \<lparr>config_id = IdStr ''exp1'',
          config_variations = Some [([], JNum (Fin 50))]\<rparr>))
       (page\<lparr>cookies := [IdStr ''exp1'' \<mapsto> []]\<rparr>) =
     Inr (None,
          (TrafficCop (Some \<lparr>config_id = IdStr ''exp1'',
            config_variations = Some [([], JNum (Fin 50))]\<rparr>))\<lparr>this_redirectVariation := Some []\<rparr>,
          page\<lparr>cookies := [IdStr ''exp1'' \<mapsto> []],
               trace := [HasItem (IdStr ''exp1''), GetItem (IdStr ''exp1''),
                         GetItem (IdStr ''exp1'')]\<rparr>)"
  by (simp add: run_defs)

text \<open>
  C6, amended. For every valid config in which the no-variation sentinel is not itself
  a key of \<open>variations\<close> with a truthy weight, if the cookie stored under the experiment
  id equals the sentinel, then \<open>generateRedirectUrl\<close> returns the sentinel for every
  draw: it assigns nothing and builds no URL.
\<close>

theorem cookie_sentinel_returned:
  assumes "verifyConfig (TrafficCop (Some cfg))"
    and "config_variations cfg = Some vs"
    and "cookies w (config_id cfg) = Some noVariationCookieValue"
    and "\<not> (\<exists>wt. map_of vs noVariationCookieValue = Some wt \<and> truthy wt)"
  shows "generateRedirectUrl url querystring rando (TrafficCop (Some cfg)) w =
           Inr (Some noVariationCookieValue, TrafficCop (Some cfg),
                w\<lparr>trace := trace w @ [HasItem (config_id cfg), GetItem (config_id cfg),
                                        GetItem (config_id cfg)]\<rparr>)"
proof -
  have "noVariationCookieValue \<notin> set object_prototype_props"
    by (simp add: noVariationCookieValue_def object_prototype_props_def)
  with assms(4) have "\<not> prop_truthy vs noVariationCookieValue"
    by (auto simp add: prop_truthy_def split: option.splits)
  with assms(2,3) show ?thesis by (simp add: gen_defs)
qed

theorem cookie_sentinel_returned_witness:
  "generateRedirectUrl None None 10 (TrafficCop (Some exp1))
       (page\<lparr>cookies := [IdStr ''exp1'' \<mapsto> ''novariation'']\<rparr>) =
     Inr (Some ''novariation'', TrafficCop (Some exp1),
          page\<lparr>cookies := [IdStr ''exp1'' \<mapsto> ''novariation''],
               trace := [HasItem (IdStr ''exp1''), GetItem (IdStr ''exp1''),
                         GetItem (IdStr ''exp1'')]\<rparr>)"
proof -
  let ?w = "page\<lparr>cookies := [IdStr ''exp1'' \<mapsto> ''novariation'']\<rparr>"
  let ?vs = "[(''v=1'', JNum (Fin 25)), (''v=2'', JNum (Fin 25))]"
  have h1: "verifyConfig (TrafficCop (Some exp1))" by (simp add: run_defs)
  have h2: "config_variations exp1 = Some ?vs" by (simp add: exp1_def)
  have h3: "cookies ?w (config_id exp1) = Some noVariationCookieValue"
    by (simp add: run_defs)
  have h4: "\<not> (\<exists>wt. map_of ?vs noVariationCookieValue = Some wt \<and> truthy wt)"
    by (simp add: run_defs)
  from cookie_sentinel_returned[OF h1 h2 h3 h4, of None None 10] show ?thesis
    by (simp add: run_defs)
qed

text \<open>
  C6 as stated fails. The variations are looked up before the sentinel is compared:
  in \<open>{'novariation': 50}\<close> the stored sentinel is a variation with a truthy weight, and
  a redirect URL is returned.
\<close>

theorem cookie_sentinel_claim_counterexample:
  "generateRedirectUrl None None 10
       (TrafficCop (Some \<lparr>config_id = IdStr ''exp1'',
          config_variations = Some [(''novariation'', JNum (Fin 50))]\<rparr>))
       (page\<lparr>cookies := [IdStr ''exp1'' \<mapsto> ''novariation'']\<rparr>) =
     Inr (Some ''https://www.mozilla.org/firefox/new/?novariation'',
          (TrafficCop (Some \<lparr>config_id = IdStr ''exp1'',
            config_variations = Some [(''novariation'', JNum (Fin 50))]\<rparr>))
            \<lparr>this_redirectVariation := Some ''novariation''\<rparr>,
          page\<lparr>cookies := [IdStr ''exp1'' \<mapsto> ''novariation''],
               trace := [HasItem (IdStr ''exp1''), GetItem (IdStr ''exp1''),
                         GetItem (IdStr ''exp1'')]\<rparr>)"
  by (simp add: run_defs)

subsection \<open>generateRedirectUrl without a cookie: the fresh assignment\<close>

text \<open>
  The loop started with the running total \<open>t\<close> stops at the first position whose bound,
  accumulated from \<open>t\<close>, reaches the draw; it assigns nothing when no bound does.
\<close>

lemma assign_loop_first:
  assumes "i < length vs"
    and "js_le r (foldl js_plus t (map (\<lambda>p. to_number (snd p)) (take (Suc i) vs)))"
    and "\<forall>j<i. \<not> js_le r (foldl js_plus t (map (\<lambda>p. to_number (snd p)) (take (Suc j) vs)))"
  shows "assign_loop r t vs = Some (fst (vs ! i))"
  using assms
proof (induction vs arbitrary: t i)
  case Nil
  then show ?case by simp
next
  case (Cons p vs)
  obtain v w where p: "p = (v, w)" by (cases p)
  have c: "js_plus (to_number w) t = js_plus t (to_number w)" by (rule js_plus_commute)
  show ?case
  proof (cases i)
    case 0
    with Cons.prems(2) show ?thesis by (simp add: p c)
  next
    case (Suc k)
    from Cons.prems(3) Suc
    have "\<not> js_le r (foldl js_plus t (map (\<lambda>p. to_number (snd p)) (take (Suc 0) (p # vs))))"
      by blast
    then have skip: "\<not> js_le r (js_plus t (to_number w))" by (simp add: p)
    have "assign_loop r (js_plus t (to_number w)) vs = Some (fst (vs ! k))"
    proof (rule Cons.IH)
      show "k < length vs" using Cons.prems(1) Suc by simp
      show "js_le r (foldl js_plus (js_plus t (to_number w))
                       (map (\<lambda>p. to_number (snd p)) (take (Suc k) vs)))"
        using Cons.prems(2) Suc by (simp add: p)
      show "\<forall>j<k. \<not> js_le r (foldl js_plus (js_plus t (to_number w))
                                  (map (\<lambda>p. to_number (snd p)) (take (Suc j) vs)))"
      proof (intro allI impI)
        fix j assume "j < k"
        then have "Suc j < i" using Suc by simp
        with Cons.prems(3)
        have "\<not> js_le r (foldl js_plus t
                           (map (\<lambda>p. to_number (snd p)) (take (Suc (Suc j)) (p # vs))))"
          by blast
        then show "\<not> js_le r (foldl js_plus (js_plus t (to_number w))
                                 (map (\<lambda>p. to_number (snd p)) (take (Suc j) vs)))"
          by (simp add: p)
      qed
    qed
    with skip show ?thesis by (simp add: p c Suc)
  qed
qed

lemma assign_loop_none:
  assumes "\<forall>j<length vs. \<not> js_le r (foldl js_plus t (map (\<lambda>p. to_number (snd p)) (take (Suc j) vs)))"
  shows "assign_loop r t vs = None"
  using assms
proof (induction vs arbitrary: t)
  case Nil
  then show ?case by simp
next
  case (Cons p vs)
  obtain v w where p: "p = (v, w)" by (cases p)
  have c: "js_plus (to_number w) t = js_plus t (to_number w)" by (rule js_plus_commute)
  from Cons.prems
  have "\<not> js_le r (foldl js_plus t (map (\<lambda>p. to_number (snd p)) (take (Suc 0) (p # vs))))"
    by blast
  then have skip: "\<not> js_le r (js_plus t (to_number w))" by (simp add: p)
  have "assign_loop r (js_plus t (to_number w)) vs = None"
  proof (rule Cons.IH, intro allI impI)
    fix j assume "j < length vs"
    then have "Suc j < length (p # vs)" by simp
    with Cons.prems
    have "\<not> js_le r (foldl js_plus t
                       (map (\<lambda>p. to_number (snd p)) (take (Suc (Suc j)) (p # vs))))"
      by blast
    then show "\<not> js_le r (foldl js_plus (js_plus t (to_number w))
                             (map (\<lambda>p. to_number (snd p)) (take (Suc j) vs)))"
      by (simp add: p)
  qed
  with skip show ?case by (simp add: p c)
qed

text \<open>When every weight is a number, the total is the bound of the last variation.\<close>

lemma total_last_bound:
  assumes "\<forall>p \<in> set vs. typeof_number (snd p)" and "vs \<noteq> []"
  shows "sumPercentages (Fin 0) vs = spec_cumulative vs (length vs - 1)"
proof -
  from assms(1) have "filter typeof_number (map snd vs) = map snd vs"
    by (simp add: filter_id_conv)
  moreover from assms(2) have "take (Suc (length vs - 1)) vs = vs" by simp
  ultimately show ?thesis
    by (simp add: sumPercentages_foldl spec_cumulative_def comp_def)
qed

lemma first_within:
  assumes "vs \<noteq> []" and "spec_at_least (spec_cumulative vs (length vs - 1)) r"
  shows "\<exists>i<length vs. spec_at_least (spec_cumulative vs i) r
           \<and> (\<forall>j<i. \<not> spec_at_least (spec_cumulative vs j) r)"
proof -
  let ?P = "\<lambda>i. i < length vs \<and> spec_at_least (spec_cumulative vs i) r"
  from assms have ex: "?P (length vs - 1)" by simp
  define i where "i = (LEAST i. ?P i)"
  from ex have Pi: "?P i" unfolding i_def by (rule LeastI)
  have "\<forall>j<i. \<not> spec_at_least (spec_cumulative vs j) r"
  proof (intro allI impI)
    fix j assume ji: "j < i"
    then have "\<not> ?P j" unfolding i_def by (rule not_less_Least)
    moreover from ji Pi have "j < length vs" by simp
    ultimately show "\<not> spec_at_least (spec_cumulative vs j) r" by simp
  qed
  with Pi show ?thesis by blast
qed

text \<open>For integer weights with exact sums, the bounds are the sums of the integers.\<close>

lemma spec_exact_sums_take:
  assumes "spec_exact_sums ns"
  shows "spec_exact_sums (take m ns)"
  unfolding spec_exact_sums_def list_all_iff
proof (intro conjI ballI)
  from assms have each: "\<forall>n \<in> set ns. \<bar>n\<bar> < 2 ^ 53"
    and sums: "\<forall>k \<in> set [0..<Suc (length ns)]. \<bar>sum_list (take k ns)\<bar> < 2 ^ 53"
    unfolding spec_exact_sums_def list_all_iff by blast+
  {
    fix n assume "n \<in> set (take m ns)"
    then have "n \<in> set ns" by (rule in_set_takeD)
    with each show "\<bar>n\<bar> < 2 ^ 53" by blast
  next
    fix k assume "k \<in> set [0..<Suc (length (take m ns))]"
    then have k: "k \<le> m" and "k \<le> length ns" by auto
    then have "k \<in> set [0..<Suc (length ns)]" by auto
    with sums have "\<bar>sum_list (take k ns)\<bar> < 2 ^ 53" by blast
    with k show "\<bar>sum_list (take k (take m ns))\<bar> < 2 ^ 53"
      by (simp add: min_absorb1)
  }
qed

lemma spec_cumulative_exact:
  assumes "spec_integer_weights (map snd vs) ns" and "spec_exact_sums ns"
  shows "spec_cumulative vs i = Fin (of_int (sum_list (take (Suc i) ns)))"
proof -
  from assms(1) have w: "map snd vs = map (\<lambda>n. JNum (Fin (of_int n))) ns"
    by (simp add: spec_integer_weights_def)
  have "map (\<lambda>p. to_number (snd p)) (take (Suc i) vs) =
          map to_number (take (Suc i) (map snd vs))"
    by (simp add: take_map comp_def)
  also have "\<dots> = map (\<lambda>n. to_number (JNum (Fin (of_int n)))) (take (Suc i) ns)"
    by (simp add: w take_map comp_def)
  finally have m: "map (\<lambda>p. to_number (snd p)) (take (Suc i) vs) =
                     map (\<lambda>n. to_number (JNum (Fin (of_int n)))) (take (Suc i) ns)" .
  from foldl_js_plus_exact[OF spec_exact_sums_take[OF assms(2), of "Suc i"]] show ?thesis
    by (simp only: spec_cumulative_def m)
qed

text \<open>
  C4, amended. For every valid config whose weights are all numbers, with no cookie
  present for the id, and for every draw \<open>r\<close> in \<open>[1, 100]\<close>: the call only asks
  \<open>hasItem\<close>; if \<open>r \<le> totalPercentage\<close> does not hold (\<open>r\<close> exceeds the total, or the total
  is \<open>NaN\<close>), no variation is assigned and no redirect URL is produced; if it holds, the
  visitor is assigned to the first variation, in the enumeration order of \<open>variations\<close>
  (array-index tokens in ascending order, then the other tokens in insertion order),
  whose cumulative upper bound is at least \<open>r\<close>, and the URL returned is built from that
  token (when the token is not the empty string). The total and the bounds are added
  in double precision; they are the exact sums whenever the weights are integers below
  \<open>2 ^ 53\<close> in absolute value whose running sums stay below \<open>2 ^ 53\<close>.
\<close>

theorem fresh_assignment_weighted_interval:
  assumes "verifyConfig (TrafficCop (Some cfg))"
    and "config_variations cfg = Some vs"
    and "\<forall>p \<in> set vs. typeof_number (snd p)"
    and "cookies w (config_id cfg) = None"
    and "1 \<le> r" and "r \<le> 100"
  shows "\<exists>redirect this'.
           generateRedirectUrl url querystring r (TrafficCop (Some cfg)) w =
             Inr (redirect, this', w\<lparr>trace := trace w @ [HasItem (config_id cfg)]\<rparr>)
           \<and> (\<not> spec_at_least (this_totalPercentage (TrafficCop (Some cfg))) r \<longrightarrow>
                this_redirectVariation this' = None \<and> redirect = None)
           \<and> (spec_at_least (this_totalPercentage (TrafficCop (Some cfg))) r \<longrightarrow>
                (\<exists>i<length (for_in (Some vs)).
                    this_redirectVariation this' = Some (fst (for_in (Some vs) ! i))
                    \<and> spec_at_least (spec_cumulative (for_in (Some vs)) i) r
                    \<and> (\<forall>j<i. \<not> spec_at_least (spec_cumulative (for_in (Some vs)) j) r)
                    \<and> (fst (for_in (Some vs) ! i) \<noteq> [] \<longrightarrow>
                         redirect = Some (js_or url (location_href w) @
                           (if js_or querystring (location_search w) = [] then ''?''
                            else js_or querystring (location_search w) @ ''&'') @
                           fst (for_in (Some vs) ! i)))))
           \<and> (\<forall>ns. spec_integer_weights (map snd (for_in (Some vs))) ns \<and> spec_exact_sums ns
                 \<longrightarrow> this_totalPercentage (TrafficCop (Some cfg)) = Fin (of_int (sum_list ns))
                   \<and> (\<forall>i<length ns. spec_cumulative (for_in (Some vs)) i =
                                        Fin (of_int (sum_list (take (Suc i) ns)))))"
proof -
  let ?cop = "TrafficCop (Some cfg)"
  let ?order = "for_in (Some vs)"
  let ?w = "w\<lparr>trace := trace w @ [HasItem (config_id cfg)]\<rparr>"
  have num: "\<forall>p \<in> set ?order. typeof_number (snd p)"
    using assms(3) unfolding set_for_in .
  have total: "this_totalPercentage ?cop = sumPercentages (Fin 0) ?order"
    using assms(2) by (simp add: TrafficCop_def)
  have loop: "for_in (this_variations ?cop) = ?order"
    using assms(2) by simp
  have exact: "\<forall>ns. spec_integer_weights (map snd ?order) ns \<and> spec_exact_sums ns
                 \<longrightarrow> this_totalPercentage ?cop = Fin (of_int (sum_list ns))
                   \<and> (\<forall>i<length ns. spec_cumulative ?order i =
                                        Fin (of_int (sum_list (take (Suc i) ns))))"
  proof (intro allI impI)
    fix ns
    assume a: "spec_integer_weights (map snd ?order) ns \<and> spec_exact_sums ns"
    then have w: "map snd ?order = map (\<lambda>n. JNum (Fin (of_int n))) ns"
      by (simp add: spec_integer_weights_def)
    from num have "filter typeof_number (map snd ?order) = map snd ?order"
      by (simp add: filter_id_conv)
    then have "this_totalPercentage ?cop = Fin (of_int (sum_list ns))"
      using foldl_js_plus_exact[of ns] a
      by (simp add: total sumPercentages_foldl w comp_def)
    moreover have "\<forall>i<length ns. spec_cumulative ?order i =
                     Fin (of_int (sum_list (take (Suc i) ns)))"
      using a spec_cumulative_exact[of ?order ns] by blast
    ultimately show "this_totalPercentage ?cop = Fin (of_int (sum_list ns))
                   \<and> (\<forall>i<length ns. spec_cumulative ?order i =
                                        Fin (of_int (sum_list (take (Suc i) ns))))"
      by blast
  qed
  show ?thesis
  proof (cases "spec_at_least (this_totalPercentage ?cop) r")
    case False
    then have "\<not> js_le r (this_totalPercentage ?cop)"
      by (simp add: spec_at_least_js_le)
    then have g: "generateRedirectUrl url querystring r ?cop w = Inr (None, ?cop, ?w)"
      using assms(4) by (simp add: gen_defs)
    show ?thesis
    proof (intro exI conjI)
      show "generateRedirectUrl url querystring r ?cop w = Inr (None, ?cop, ?w)"
        by (rule g)
      show "\<not> spec_at_least (this_totalPercentage ?cop) r \<longrightarrow>
              this_redirectVariation ?cop = None \<and> None = None"
        by simp
      show "spec_at_least (this_totalPercentage ?cop) r \<longrightarrow>
              (\<exists>i<length ?order.
                  this_redirectVariation ?cop = Some (fst (?order ! i))
                  \<and> spec_at_least (spec_cumulative ?order i) r
                  \<and> (\<forall>j<i. \<not> spec_at_least (spec_cumulative ?order j) r)
                  \<and> (fst (?order ! i) \<noteq> [] \<longrightarrow>
                       None = Some (js_or url (location_href w) @
                         (if js_or querystring (location_search w) = [] then ''?''
                          else js_or querystring (location_search w) @ ''&'') @
                         fst (?order ! i))))"
        using False by simp
      show "\<forall>ns. spec_integer_weights (map snd ?order) ns \<and> spec_exact_sums ns
                 \<longrightarrow> this_totalPercentage ?cop = Fin (of_int (sum_list ns))
                   \<and> (\<forall>i<length ns. spec_cumulative ?order i =
                                        Fin (of_int (sum_list (take (Suc i) ns))))"
        by (rule exact)
    qed
  next
    case True
    then have le: "js_le r (this_totalPercentage ?cop)"
      by (simp add: spec_at_least_js_le)
    from assms(1) have "this_totalPercentage ?cop \<noteq> Fin 0"
      by (simp add: verifyConfig_def split: if_splits)
    with total have ne: "?order \<noteq> []" by auto
    from True total total_last_bound[OF num ne]
    have "spec_at_least (spec_cumulative ?order (length ?order - 1)) r" by simp
    from first_within[OF ne this] obtain i where
      i: "i < length ?order" "spec_at_least (spec_cumulative ?order i) r"
         "\<forall>j<i. \<not> spec_at_least (spec_cumulative ?order j) r"
      by blast
    let ?tok = "fst (?order ! i)"
    let ?chosen = "?cop\<lparr>this_redirectVariation := Some ?tok\<rparr>"
    let ?url = "construct_url (js_or url (location_href w))
                  (js_or querystring (location_search w)) ?chosen"
    have "assign_loop r (Fin 0) ?order = Some ?tok"
      using i by (intro assign_loop_first)
                 (simp_all add: spec_at_least_js_le spec_cumulative_def)
    then have g: "generateRedirectUrl url querystring r ?cop w = Inr (?url, ?chosen, ?w)"
      using assms(4) le loop by (simp add: gen_defs)
    have u: "?tok \<noteq> [] \<longrightarrow>
               ?url = Some (js_or url (location_href w) @
                 (if js_or querystring (location_search w) = [] then ''?''
                  else js_or querystring (location_search w) @ ''&'') @ ?tok)"
      by (simp add: construct_url_def truthy_str_def)
    show ?thesis
    proof (intro exI conjI)
      show "generateRedirectUrl url querystring r ?cop w = Inr (?url, ?chosen, ?w)"
        by (rule g)
      show "\<not> spec_at_least (this_totalPercentage ?cop) r \<longrightarrow>
              this_redirectVariation ?chosen = None \<and> ?url = None"
        using True by simp
      show "spec_at_least (this_totalPercentage ?cop) r \<longrightarrow>
              (\<exists>i<length ?order.
                  this_redirectVariation ?chosen = Some (fst (?order ! i))
                  \<and> spec_at_least (spec_cumulative ?order i) r
                  \<and> (\<forall>j<i. \<not> spec_at_least (spec_cumulative ?order j) r)
                  \<and> (fst (?order ! i) \<noteq> [] \<longrightarrow>
                       ?url = Some (js_or url (location_href w) @
                         (if js_or querystring (location_search w) = [] then ''?''
                          else js_or querystring (location_search w) @ ''&'') @
                         fst (?order ! i))))"
      proof (rule impI, intro exI[of _ i] conjI)
        show "i < length ?order" by (rule i(1))
        show "this_redirectVariation ?chosen = Some ?tok" by simp
        show "spec_at_least (spec_cumulative ?order i) r" by (rule i(2))
        show "\<forall>j<i. \<not> spec_at_least (spec_cumulative ?order j) r" by (rule i(3))
        show "?tok \<noteq> [] \<longrightarrow>
               ?url = Some (js_or url (location_href w) @
                 (if js_or querystring (location_search w) = [] then ''?''
                  else js_or querystring (location_search w) @ ''&'') @ ?tok)"
          by (rule u)
      qed
      show "\<forall>ns. spec_integer_weights (map snd ?order) ns \<and> spec_exact_sums ns
                 \<longrightarrow> this_totalPercentage ?cop = Fin (of_int (sum_list ns))
                   \<and> (\<forall>i<length ns. spec_cumulative ?order i =
                                        Fin (of_int (sum_list (take (Suc i) ns))))"
        by (rule exact)
    qed
  qed
qed

text \<open>
  The spec's scenario, \<open>{id: 'exp1', variations: {'v=1': 25, 'v=2': 25}}\<close> without a
  cookie: the draw 10 chooses \<open>v=1\<close>, the draw 30 chooses \<open>v=2\<close>, the draw 80 chooses no
  variation.
\<close>

theorem fresh_assignment_weighted_interval_witness:
  "generateRedirectUrl None None 10 (TrafficCop (Some exp1)) page =
     Inr (Some ''https://www.mozilla.org/firefox/new/?v=1'',
          (TrafficCop (Some exp1))\<lparr>this_redirectVariation := Some ''v=1''\<rparr>,
          page\<lparr>trace := [HasItem (IdStr ''exp1'')]\<rparr>)
   \<and> generateRedirectUrl None None 30 (TrafficCop (Some exp1)) page =
     Inr (Some ''https://www.mozilla.org/firefox/new/?v=2'',
          (TrafficCop (Some exp1))\<lparr>this_redirectVariation := Some ''v=2''\<rparr>,
          page\<lparr>trace := [HasItem (IdStr ''exp1'')]\<rparr>)
   \<and> generateRedirectUrl None None 80 (TrafficCop (Some exp1)) page =
     Inr (None, TrafficCop (Some exp1), page\<lparr>trace := [HasItem (IdStr ''exp1'')]\<rparr>)"
proof -
  let ?vs = "[(''v=1'', JNum (Fin 25)), (''v=2'', JNum (Fin 25))]"
  have h1: "verifyConfig (TrafficCop (Some exp1))" by (simp add: run_defs)
  have h2: "config_variations exp1 = Some ?vs" by (simp add: exp1_def)
  have h3: "\<forall>p \<in> set ?vs. typeof_number (snd p)" by simp
  have h4: "cookies page (config_id exp1) = None" by (simp add: run_defs)
  note inst = fresh_assignment_weighted_interval[OF h1 h2 h3 h4, of _ None None]
  have r10: "(1::int) \<le> 10" "(10::int) \<le> 100"
    and r30: "(1::int) \<le> 30" "(30::int) \<le> 100"
    and r80: "(1::int) \<le> 80" "(80::int) \<le> 100"
    by simp_all
  from inst[OF r10] inst[OF r30] inst[OF r80] show ?thesis
    by (simp add: run_defs)
qed

text \<open>
  C4 as stated fails three times. In \<open>{'v=1': undefined, 'v=2': 50}\<close>, a valid config
  with the total 50, the draw 10 assigns nobody: the running total becomes \<open>NaN\<close>. In
  \<open>{'b': 25, '1': 25}\<close> the draw 10 chooses \<open>1\<close>, which is enumerated first although it
  was inserted last. In \<open>{'v=1': NaN, 'v=2': 50}\<close>, valid as well, the total is \<open>NaN\<close>:
  the draw 10 does not exceed it, and nobody is assigned.
\<close>

theorem fresh_assignment_claim_counterexample:
  "verifyConfig (TrafficCop (Some \<lparr>config_id = IdStr ''exp1'',
        config_variations = Some [(''v=1'', JUndefined), (''v=2'', JNum (Fin 50))]\<rparr>))
   \<and> this_totalPercentage (TrafficCop (Some \<lparr>config_id = IdStr ''exp1'',
        config_variations = Some [(''v=1'', JUndefined), (''v=2'', JNum (Fin 50))]\<rparr>)) = Fin 50
   \<and> generateRedirectUrl None None 10
       (TrafficCop (Some \<lparr>config_id = IdStr ''exp1'',
          config_variations = Some [(''v=1'', JUndefined), (''v=2'', JNum (Fin 50))]\<rparr>)) page =
     Inr (None,
          TrafficCop (Some \<lparr>config_id = IdStr ''exp1'',
            config_variations = Some [(''v=1'', JUndefined), (''v=2'', JNum (Fin 50))]\<rparr>),
          page\<lparr>trace := [HasItem (IdStr ''exp1'')]\<rparr>)
   \<and> generateRedirectUrl None None 10
       (TrafficCop (Some \<lparr>config_id = IdStr ''exp1'',
          config_variations = Some [(''b'', JNum (Fin 25)), (''1'', JNum (Fin 25))]\<rparr>)) page =
     Inr (Some ''https://www.mozilla.org/firefox/new/?1'',
          (TrafficCop (Some \<lparr>config_id = IdStr ''exp1'',
            config_variations = Some [(''b'', JNum (Fin 25)), (''1'', JNum (Fin 25))]\<rparr>))
            \<lparr>this_redirectVariation := Some ''1''\<rparr>,
          page\<lparr>trace := [HasItem (IdStr ''exp1'')]\<rparr>)
   \<and> verifyConfig (TrafficCop (Some \<lparr>config_id = IdStr ''exp1'',
        config_variations = Some [(''v=1'', JNum NaN), (''v=2'', JNum (Fin 50))]\<rparr>))
   \<and> this_totalPercentage (TrafficCop (Some \<lparr>config_id = IdStr ''exp1'',
        config_variations = Some [(''v=1'', JNum NaN), (''v=2'', JNum (Fin 50))]\<rparr>)) = NaN
   \<and> generateRedirectUrl None None 10
       (TrafficCop (Some \<lparr>config_id = IdStr ''exp1'',
          config_variations = Some [(''v=1'', JNum NaN), (''v=2'', JNum (Fin 50))]\<rparr>)) page =
     Inr (None,
          TrafficCop (Some \<lparr>config_id = IdStr ''exp1'',
            config_variations = Some [(''v=1'', JNum NaN), (''v=2'', JNum (Fin 50))]\<rparr>),
          page\<lparr>trace := [HasItem (IdStr ''exp1'')]\<rparr>)"
  by (simp add: run_defs)

subsection \<open>init: what is done with the result of generateRedirectUrl\<close>

lemma construct_url_not_sentinel:
  "construct_url url q this \<noteq> Some noVariationCookieValue"
proof
  assume a: "construct_url url q this = Some noVariationCookieValue"
  let ?k = "to_key (this_redirectVariation this)"
  from a have "noVariationCookieValue = url @ q @ ''&'' @ ?k
      \<or> noVariationCookieValue = url @ ''?'' @ ?k"
    by (auto simp add: construct_url_def split: if_splits)
  then have "set noVariationCookieValue = set (url @ q @ ''&'' @ ?k)
      \<or> set noVariationCookieValue = set (url @ ''?'' @ ?k)"
    by (elim disjE) simp_all
  then have "CHR ''&'' \<in> set noVariationCookieValue \<or> CHR ''?'' \<in> set noVariationCookieValue"
    by auto
  then show False by (simp add: noVariationCookieValue_def)
qed

text \<open>\<open>generateRedirectUrl\<close> only reads the cookie of the instance's id.\<close>

lemma generateRedirectUrl_reads:
  assumes "generateRedirectUrl url q rando this w = Inr (redirectUrl, this', w')"
  shows "this_id this' = this_id this
         \<and> (\<exists>reads. w' = w\<lparr>trace := trace w @ reads\<rparr>
               \<and> set reads \<subseteq> {HasItem (this_id this), GetItem (this_id this)})"
proof (cases "cookies w (this_id this)")
  case None
  with assms have "w' = w\<lparr>trace := trace w @ [HasItem (this_id this)]\<rparr>"
    and "this_id this' = this_id this"
    by (auto simp add: gen_defs split: if_splits option.splits)
  then show ?thesis by auto
next
  case (Some c)
  with assms have
    "w' = w\<lparr>trace := trace w @ [HasItem (this_id this), GetItem (this_id this),
                                  GetItem (this_id this)]\<rparr>"
    and "this_id this' = this_id this"
    by (auto simp add: gen_defs split: if_splits option.splits)
  then show ?thesis by auto
qed

text \<open>The sentinel is returned only for a cookie that holds it, by the early return.\<close>

lemma generateRedirectUrl_sentinel:
  assumes "generateRedirectUrl url q rando this w =
             Inr (Some noVariationCookieValue, this', w')"
  shows "cookies w (this_id this) = Some noVariationCookieValue \<and> this' = this"
  using assms construct_url_not_sentinel
  by (auto simp add: gen_defs split: if_splits option.splits)

text \<open>
  C2, amended. For every valid config and every load with Do-Not-Track off of a page
  that is not a variation, if \<open>generateRedirectUrl\<close> yields nothing at all
  (\<open>undefined\<close>), then \<open>init\<close> persists the cookie id \<open>\<rightarrow>\<close> sentinel, by a \<open>setItem\<close> call
  that is its last effect, and performs no navigation: before that call the cookie is
  only read, and the location is left unchanged.
\<close>

theorem init_undefined_persists_sentinel:
  assumes "verifyConfig this"
    and "dntEnabled w \<noteq> Some True"
    and "\<not> isVariation None this w"
    and "generateRedirectUrl None None rando this w = Inr (None, this', w')"
  shows "\<exists>reads.
           init rando this w =
             Inr (this',
                  w\<lparr>cookies := (cookies w)(this_id this \<mapsto> noVariationCookieValue),
                    trace := trace w @ reads @
                      [SetItem (this_id this) noVariationCookieValue]\<rparr>)
           \<and> set reads \<subseteq> {HasItem (this_id this), GetItem (this_id this)}"
proof -
  from generateRedirectUrl_reads[OF assms(4)] obtain reads where
    i: "this_id this' = this_id this" and w': "w' = w\<lparr>trace := trace w @ reads\<rparr>"
    and r: "set reads \<subseteq> {HasItem (this_id this), GetItem (this_id this)}"
    by blast
  have "init rando this w = Inr (this', setItem (this_id this') noVariationCookieValue w')"
    using assms by (simp add: init_def)
  then show ?thesis using i w' r by (auto simp add: setItem_def)
qed

text \<open>The scenario with the draw 80: no variation, the sentinel cookie is written.\<close>

theorem init_undefined_persists_sentinel_witness:
  "init 80 (TrafficCop (Some exp1)) page =
     Inr (TrafficCop (Some exp1),
          page\<lparr>cookies := [IdStr ''exp1'' \<mapsto> ''novariation''],
               trace := [HasItem (IdStr ''exp1''),
                         SetItem (IdStr ''exp1'') ''novariation'']\<rparr>)"
proof -
  let ?cop = "TrafficCop (Some exp1)"
  have h1: "verifyConfig ?cop" by (simp add: run_defs)
  have h2: "dntEnabled page \<noteq> Some True" by (simp add: page_def)
  have h3: "\<not> isVariation None ?cop page" by (simp add: run_defs)
  have h4: "generateRedirectUrl None None 80 ?cop page =
              Inr (None, ?cop, page\<lparr>trace := [HasItem (IdStr ''exp1'')]\<rparr>)"
    by (simp add: run_defs)
  from init_undefined_persists_sentinel[OF h1 h2 h3 h4] show ?thesis
    by (simp add: run_defs)
qed

text \<open>
  C2 as stated fails. In the scenario the draw 80 makes \<open>generateRedirectUrl\<close> yield
  \<open>undefined\<close>, and \<open>init\<close> then writes the cookie \<open>exp1 = 'novariation'\<close>: \<open>undefined\<close> is
  falsy and takes the \<open>else\<close> branch of \<open>if (redirectUrl)\<close>.
\<close>

theorem init_undefined_claim_counterexample:
  "generateRedirectUrl None None 80 (TrafficCop (Some exp1)) page =
     Inr (None, TrafficCop (Some exp1), page\<lparr>trace := [HasItem (IdStr ''exp1'')]\<rparr>)
   \<and> init 80 (TrafficCop (Some exp1)) page =
     Inr (TrafficCop (Some exp1),
          page\<lparr>cookies := [IdStr ''exp1'' \<mapsto> ''novariation''],
               trace := [HasItem (IdStr ''exp1''),
                         SetItem (IdStr ''exp1'') ''novariation'']\<rparr>)"
  by (simp add: run_defs)

text \<open>
  C3, amended. For every valid config and every load with Do-Not-Track off of a page
  that is not a variation, if \<open>generateRedirectUrl\<close> yields the no-variation sentinel,
  then \<open>init\<close> performs no cookie write and no navigation: the cookie is only read, the
  store, which already holds id \<open>\<rightarrow>\<close> sentinel, and the location are left unchanged.
\<close>

theorem init_sentinel_no_write:
  assumes "verifyConfig this"
    and "dntEnabled w \<noteq> Some True"
    and "\<not> isVariation None this w"
    and "generateRedirectUrl None None rando this w =
           Inr (Some noVariationCookieValue, this', w')"
  shows "\<exists>reads.
           init rando this w = Inr (this, w\<lparr>trace := trace w @ reads\<rparr>)
           \<and> set reads \<subseteq> {HasItem (this_id this), GetItem (this_id this)}
           \<and> cookies w (this_id this) = Some noVariationCookieValue"
proof -
  from generateRedirectUrl_reads[OF assms(4)] obtain reads where
    w': "w' = w\<lparr>trace := trace w @ reads\<rparr>"
    and r: "set reads \<subseteq> {HasItem (this_id this), GetItem (this_id this)}"
    by blast
  from generateRedirectUrl_sentinel[OF assms(4)]
  have c: "cookies w (this_id this) = Some noVariationCookieValue" and t: "this' = this"
    by simp_all
  have "init rando this w = Inr (this', w')"
    using assms by (simp add: init_def noVariationCookieValue_def truthy_str_def)
  then show ?thesis using w' r c t by auto
qed

theorem init_sentinel_no_write_witness:
  "init 10 (TrafficCop (Some exp1))
       (page\<lparr>cookies := [IdStr ''exp1'' \<mapsto> ''novariation'']\<rparr>) =
     Inr (TrafficCop (Some exp1),
          page\<lparr>cookies := [IdStr ''exp1'' \<mapsto> ''novariation''],
               trace := [HasItem (IdStr ''exp1''), GetItem (IdStr ''exp1''),
                         GetItem (IdStr ''exp1'')]\<rparr>)"
proof -
  let ?cop = "TrafficCop (Some exp1)"
  let ?w = "page\<lparr>cookies := [IdStr ''exp1'' \<mapsto> ''novariation'']\<rparr>"
  have h1: "verifyConfig ?cop" by (simp add: run_defs)
  have h2: "dntEnabled ?w \<noteq> Some True" by (simp add: page_def)
  have h3: "\<not> isVariation None ?cop ?w" by (simp add: run_defs)
  have h4: "generateRedirectUrl None None 10 ?cop ?w =
              Inr (Some noVariationCookieValue, ?cop,
                   ?w\<lparr>trace := [HasItem (IdStr ''exp1''), GetItem (IdStr ''exp1''),
                                  GetItem (IdStr ''exp1'')]\<rparr>)"
    by (simp add: run_defs)
  from init_sentinel_no_write[OF h1 h2 h3 h4] show ?thesis
    by (simp add: run_defs)
qed

text \<open>
  C3 as stated fails. With the cookie \<open>exp1 = 'novariation'\<close>, \<open>generateRedirectUrl\<close>
  yields the sentinel and \<open>init\<close> only reads the cookie: the sentinel is truthy, the
  inner test \<open>redirectUrl !== noVariationCookieValue\<close> fails, and no \<open>setItem\<close> call
  occurs.
\<close>

theorem init_sentinel_claim_counterexample:
  "generateRedirectUrl None None 10 (TrafficCop (Some exp1))
       (page\<lparr>cookies := [IdStr ''exp1'' \<mapsto> ''novariation'']\<rparr>) =
     Inr (Some ''novariation'', TrafficCop (Some exp1),
          page\<lparr>cookies := [IdStr ''exp1'' \<mapsto> ''novariation''],
               trace := [HasItem (IdStr ''exp1''), GetItem (IdStr ''exp1''),
                         GetItem (IdStr ''exp1'')]\<rparr>)
   \<and> init 10 (TrafficCop (Some exp1))
       (page\<lparr>cookies := [IdStr ''exp1'' \<mapsto> ''novariation'']\<rparr>) =
     Inr (TrafficCop (Some exp1),
          page\<lparr>cookies := [IdStr ''exp1'' \<mapsto> ''novariation''],
               trace := [HasItem (IdStr ''exp1''), GetItem (IdStr ''exp1''),
                         GetItem (IdStr ''exp1'')]\<rparr>)
   \<and> SetItem (IdStr ''exp1'') ''novariation'' \<notin>
       set [HasItem (IdStr ''exp1''), GetItem (IdStr ''exp1''), GetItem (IdStr ''exp1'')]"
  by (simp add: run_defs)

text \<open>
  C10, amended. For every valid config that maps some variation token other than the
  sentinel to weight 0 (or any falsy weight), if the cookie store already holds that
  token under the experiment id, then \<open>generateRedirectUrl\<close> neither adopts the stored
  variation nor performs a fresh draw and returns \<open>undefined\<close>; and \<open>init\<close>, on a load
  with Do-Not-Track off of a page that is not a variation, consequently overwrites the
  visitor's cookie with the no-variation sentinel, without navigating.
\<close>

theorem falsy_weight_cookie_reset:
  assumes "verifyConfig (TrafficCop (Some cfg))"
    and "config_variations cfg = Some vs"
    and "map_of vs tok = Some wt"
    and "\<not> truthy wt"
    and "cookies w (config_id cfg) = Some tok"
    and "tok \<noteq> noVariationCookieValue"
    and "dntEnabled w \<noteq> Some True"
    and "\<not> isVariation None (TrafficCop (Some cfg)) w"
  shows "generateRedirectUrl url querystring rando (TrafficCop (Some cfg)) w =
           Inr (None, TrafficCop (Some cfg),
                w\<lparr>trace := trace w @ [HasItem (config_id cfg), GetItem (config_id cfg),
                                        GetItem (config_id cfg)]\<rparr>)
         \<and> init rando (TrafficCop (Some cfg)) w =
           Inr (TrafficCop (Some cfg),
                w\<lparr>cookies := (cookies w)(config_id cfg \<mapsto> noVariationCookieValue),
                  trace := trace w @ [HasItem (config_id cfg), GetItem (config_id cfg),
                                      GetItem (config_id cfg),
                                      SetItem (config_id cfg) noVariationCookieValue]\<rparr>)"
proof -
  from assms(3,4) have "\<not> prop_truthy vs tok" by (simp add: prop_truthy_def)
  with assms(2,5,6) have g: "\<And>u q. generateRedirectUrl u q rando (TrafficCop (Some cfg)) w =
           Inr (None, TrafficCop (Some cfg),
                w\<lparr>trace := trace w @ [HasItem (config_id cfg), GetItem (config_id cfg),
                                        GetItem (config_id cfg)]\<rparr>)"
    by (simp add: gen_defs)
  from g[of None None] assms(1,7,8)
  have "init rando (TrafficCop (Some cfg)) w =
           Inr (TrafficCop (Some cfg),
                w\<lparr>cookies := (cookies w)(config_id cfg \<mapsto> noVariationCookieValue),
                  trace := trace w @ [HasItem (config_id cfg), GetItem (config_id cfg),
                                      GetItem (config_id cfg),
                                      SetItem (config_id cfg) noVariationCookieValue]\<rparr>)"
    by (simp add: init_def setItem_def)
  with g[of url querystring] show ?thesis by simp
qed

text \<open>
  The config \<open>{'v=1': 0, 'v=2': 50}\<close> and a visitor whose cookie is \<open>exp1 = 'v=1'\<close>: with
  the draw 10 the cookie becomes \<open>exp1 = 'novariation'\<close>.
\<close>

theorem falsy_weight_cookie_reset_witness:
  "init 10
       (TrafficCop (Some \<lparr>config_id = IdStr ''exp1'',
          config_variations = Some [(''v=1'', JNum (Fin 0)), (''v=2'', JNum (Fin 50))]\<rparr>))
       (page\<lparr>cookies := [IdStr ''exp1'' \<mapsto> ''v=1'']\<rparr>) =
     Inr (TrafficCop (Some \<lparr>config_id = IdStr ''exp1'',
            config_variations = Some [(''v=1'', JNum (Fin 0)), (''v=2'', JNum (Fin 50))]\<rparr>),
          page\<lparr>cookies := [IdStr ''exp1'' \<mapsto> ''novariation''],
               trace := [HasItem (IdStr ''exp1''), GetItem (IdStr ''exp1''),
                         GetItem (IdStr ''exp1''),
                         SetItem (IdStr ''exp1'') ''novariation'']\<rparr>)"
proof -
  let ?cfg = "\<lparr>config_id = IdStr ''exp1'',
                config_variations = Some [(''v=1'', JNum (Fin 0)), (''v=2'', JNum (Fin 50))]\<rparr>"
  let ?vs = "[(''v=1'', JNum (Fin 0)), (''v=2'', JNum (Fin 50))]"
  let ?w = "page\<lparr>cookies := [IdStr ''exp1'' \<mapsto> ''v=1'']\<rparr>"
  have h1: "verifyConfig (TrafficCop (Some ?cfg))" by (simp add: run_defs)
  have h2: "config_variations ?cfg = Some ?vs" by simp
  have h3: "map_of ?vs ''v=1'' = Some (JNum (Fin 0))" by simp
  have h4: "\<not> truthy (JNum (Fin 0))" by simp
  have h5: "cookies ?w (config_id ?cfg) = Some ''v=1''" by (simp add: run_defs)
  have h6: "''v=1'' \<noteq> noVariationCookieValue" by (simp add: run_defs)
  have h7: "dntEnabled ?w \<noteq> Some True" by (simp add: page_def)
  have h8: "\<not> isVariation None (TrafficCop (Some ?cfg)) ?w" by (simp add: run_defs)
  from falsy_weight_cookie_reset[OF h1 h2 h3 h4 h5 h6 h7 h8, of None None 10]
  show ?thesis by (simp add: run_defs)
qed

text \<open>
  C10 as stated fails for a token that is the sentinel itself. In
  \<open>{'novariation': 0, 'v=1': 50}\<close> with the cookie \<open>exp1 = 'novariation'\<close> the stored token
  has weight 0, yet \<open>generateRedirectUrl\<close> returns the sentinel, not \<open>undefined\<close>, and
  \<open>init\<close> writes nothing.
\<close>

theorem falsy_weight_claim_counterexample:
  "generateRedirectUrl None None 10
       (TrafficCop (Some \<lparr>config_id = IdStr ''exp1'',
          config_variations = Some [(''novariation'', JNum (Fin 0)), (''v=1'', JNum (Fin 50))]\<rparr>))
       (page\<lparr>cookies := [IdStr ''exp1'' \<mapsto> ''novariation'']\<rparr>) =
     Inr (Some ''novariation'',
          TrafficCop (Some \<lparr>config_id = IdStr ''exp1'',
            config_variations = Some [(''novariation'', JNum (Fin 0)), (''v=1'', JNum (Fin 50))]\<rparr>),
          page\<lparr>cookies := [IdStr ''exp1'' \<mapsto> ''novariation''],
               trace := [HasItem (IdStr ''exp1''), GetItem (IdStr ''exp1''),
                         GetItem (IdStr ''exp1'')]\<rparr>)
   \<and> init 10
       (TrafficCop (Some \<lparr>config_id = IdStr ''exp1'',
          config_variations = Some [(''novariation'', JNum (Fin 0)), (''v=1'', JNum (Fin 50))]\<rparr>))
       (page\<lparr>cookies := [IdStr ''exp1'' \<mapsto> ''novariation'']\<rparr>) =
     Inr (TrafficCop (Some \<lparr>config_id = IdStr ''exp1'',
            config_variations = Some [(''novariation'', JNum (Fin 0)), (''v=1'', JNum (Fin 50))]\<rparr>),
          page\<lparr>cookies := [IdStr ''exp1'' \<mapsto> ''novariation''],
               trace := [HasItem (IdStr ''exp1''), GetItem (IdStr ''exp1''),
                         GetItem (IdStr ''exp1'')]\<rparr>)"
  by (simp add: run_defs)

end
